theory Spec2Isabelle
  imports Complex_Main "HOL-Library.AList" "HOL-Library.Sublist"
begin

section \<open>Python values\<close>

text \<open>
  The engine works on untyped dictionaries: policy rows, evidence chunks and the JSON
  object returned by the analysis service. Their values are modelled by one datatype.
  A float is the rational it denotes (NaN and the infinities are left out); a dictionary
  is an association list in insertion order, read with \<open>map_of\<close>.
\<close>

datatype pyval =
    VNone
  | VBool bool
  | VInt int
  | VFloat rat
  | VStr string
  | VList "pyval list"
  | VDict "(string \<times> pyval) list"

type_synonym pydict = "(string \<times> pyval) list"

text \<open>
  An exception that reaches the caller. \<open>Raised m\<close> is an exception raised by a
  collaborator, with \<open>str(e) = m\<close>; the others are raised by the interpreter on a value
  of the wrong shape.
\<close>

datatype exn = TypeError | AttributeError | KeyError string | Raised string

definition ebind :: "exn + 'a \<Rightarrow> ('a \<Rightarrow> exn + 'b) \<Rightarrow> exn + 'b" where
  "ebind m f = (case m of Inl e \<Rightarrow> Inl e | Inr a \<Rightarrow> f a)"

text \<open>Truth value of an object, as \<open>if x\<close>, \<open>not x\<close> and \<open>x or y\<close> test it.\<close>

fun truthy :: "pyval \<Rightarrow> bool" where
  "truthy VNone = False"
| "truthy (VBool b) = b"
| "truthy (VInt i) = (i \<noteq> 0)"
| "truthy (VFloat r) = (r \<noteq> 0)"
| "truthy (VStr s) = (s \<noteq> [])"
| "truthy (VList xs) = (xs \<noteq> [])"
| "truthy (VDict d) = (d \<noteq> [])"

definition py_or :: "pyval \<Rightarrow> pyval \<Rightarrow> pyval" where
  "py_or x y = (if truthy x then x else y)"

text \<open>\<open>d.get(k)\<close> and \<open>d.get(k, default)\<close>.\<close>

definition dget :: "pydict \<Rightarrow> string \<Rightarrow> pyval" where
  "dget d k = (case map_of d k of None \<Rightarrow> VNone | Some v \<Rightarrow> v)"

definition dget_default :: "pydict \<Rightarrow> string \<Rightarrow> pyval \<Rightarrow> pyval" where
  "dget_default d k v0 = (case map_of d k of None \<Rightarrow> v0 | Some v \<Rightarrow> v)"

text \<open>
  Ordering comparisons with an integer literal: \<open>bool\<close>, \<open>int\<close> and \<open>float\<close> compare
  by value, every other operand raises \<open>TypeError\<close>.
\<close>

fun num_of :: "pyval \<Rightarrow> rat option" where
  "num_of (VBool b) = Some (if b then 1 else 0)"
| "num_of (VInt i) = Some (of_int i)"
| "num_of (VFloat r) = Some r"
| "num_of _ = None"

definition py_le :: "pyval \<Rightarrow> int \<Rightarrow> exn + bool" where
  "py_le v n = (case num_of v of None \<Rightarrow> Inl TypeError | Some r \<Rightarrow> Inr (r \<le> of_int n))"

definition py_gt :: "pyval \<Rightarrow> int \<Rightarrow> exn + bool" where
  "py_gt v n = (case num_of v of None \<Rightarrow> Inl TypeError | Some r \<Rightarrow> Inr (r > of_int n))"

text \<open>
  A \<open>str\<close> is the list of the bytes of its UTF-8 encoding. \<open>coverage_status.lower()\<close>
  and \<open>room.lower()\<close> of the scoring engine are only compared with ASCII literals, and
  no text with a character outside ASCII lower-cases to one of these literals: there
  \<open>str.lower\<close> is decided by the ASCII letters, which change case, every other byte
  being left as it is.
  (Where the engine lower-cases or upper-cases text that it does not compare with a
  literal, Python's \<open>str.lower\<close> and \<open>str.upper\<close> are parameters of the pipeline, see
  \<open>text_lower\<close> and \<open>text_upper\<close> below.)
\<close>

definition lower_char :: "char \<Rightarrow> char" where
  "lower_char c = (let n = (of_char c :: nat) in if 65 \<le> n \<and> n \<le> 90 then char_of (n + 32) else c)"

definition str_lower :: "string \<Rightarrow> string" where
  "str_lower s = map lower_char s"

text \<open>\<open>v.lower()\<close> on an arbitrary object: only \<open>str\<close> has the method.\<close>

definition py_lower :: "pyval \<Rightarrow> exn + string" where
  "py_lower v = (case v of VStr s \<Rightarrow> Inr (str_lower s) | _ \<Rightarrow> Inl AttributeError)"

text \<open>
  \<open>len(v)\<close>. The length of a \<open>str\<close> is the number of its code points: of the bytes of
  its encoding that are not continuation bytes (\<open>0x80\<close> to \<open>0xBF\<close>). The length of a
  dictionary is the number of its keys.
\<close>

definition continuation_byte :: "char \<Rightarrow> bool" where
  "continuation_byte c = (128 \<le> (of_char c :: nat) \<and> (of_char c :: nat) < 192)"

definition code_points :: "string \<Rightarrow> nat" where
  "code_points s = length (filter (\<lambda>c. \<not> continuation_byte c) s)"

definition py_len :: "pyval \<Rightarrow> exn + int" where
  "py_len v = (case v of
       VStr s \<Rightarrow> Inr (int (code_points s))
     | VList xs \<Rightarrow> Inr (int (length xs))
     | VDict d \<Rightarrow> Inr (int (length (remdups (map fst d))))
     | _ \<Rightarrow> Inl TypeError)"

text \<open>\<open>"%" in v\<close>: substring test on a string, membership on a list or a dictionary's keys.\<close>

definition percent_in :: "pyval \<Rightarrow> exn + bool" where
  "percent_in v = (case v of
       VStr s \<Rightarrow> Inr (CHR ''%'' \<in> set s)
     | VList xs \<Rightarrow> Inr (VStr ''%'' \<in> set xs)
     | VDict d \<Rightarrow> Inr (''%'' \<in> set (map fst d))
     | _ \<Rightarrow> Inl TypeError)"

section \<open>The scoring engine\<close>

text \<open>
  \<open>compute_claim_score\<close> (claim_engine.py, lines 56 to 130). The running \<open>score\<close> is the
  sum of one delta per block of the function; the blocks are evaluated in the order of
  the source, so that the first exception raised is the one returned.
\<close>

definition coverage_base :: "string \<Rightarrow> int" where
  "coverage_base coverage_status =
     (let status = str_lower coverage_status in
      if status = ''covered'' then 50
      else if status = ''partially_covered'' then 25
      else 0)"

definition ped_bonus :: "pydict \<Rightarrow> exn + int" where
  "ped_bonus policy =
     (let ped = dget_default policy ''waiting_period_preexisting_years'' (VInt 4) in
      ebind (py_le ped 1) (\<lambda>le1.
        if le1 then Inr 20
        else ebind (py_le ped 2) (\<lambda>le2. if le2 then Inr 12 else Inr 0)))"

definition exclusion_delta :: "pyval \<Rightarrow> int" where
  "exclusion_delta exclusions_applicable =
     (let excl = py_or exclusions_applicable (VList []) in
      if \<not> truthy excl then 15 else - 25)"

definition risk_delta :: "pyval \<Rightarrow> exn + int" where
  "risk_delta risk_flags =
     (let flags = py_or risk_flags (VList []) in
      if \<not> truthy flags then Inr 10
      else ebind (py_len flags) (\<lambda>n. Inr (- min (n * 5) 20)))"

definition co_pay_penalty :: "pydict \<Rightarrow> exn + int" where
  "co_pay_penalty policy =
     ebind (py_gt (dget_default policy ''co_pay_percent'' (VInt 0)) 0) (\<lambda>gt.
       if gt then Inr (- 5) else Inr 0)"

definition room_penalty :: "pydict \<Rightarrow> exn + int" where
  "room_penalty policy =
     (let room = py_or (dget policy ''room_rent_limit'') (VStr '''') in
      if \<not> truthy room then Inr 0
      else ebind (percent_in room) (\<lambda>pct.
        if pct then Inr (- 10)
        else ebind (py_lower room) (\<lambda>low.
          if low \<notin> set [''no limit'', ''no sub-limits'', ''no restriction'', '''']
          then Inr (- 5) else Inr 0)))"

definition claim_score_sum :: "string \<Rightarrow> pyval \<Rightarrow> pyval \<Rightarrow> pydict \<Rightarrow> exn + int" where
  "claim_score_sum coverage_status exclusions_applicable risk_flags policy =
     ebind (ped_bonus policy) (\<lambda>w.
     ebind (risk_delta risk_flags) (\<lambda>r.
     ebind (co_pay_penalty policy) (\<lambda>c.
     ebind (room_penalty policy) (\<lambda>m.
       Inr (coverage_base coverage_status + w + exclusion_delta exclusions_applicable
            + r + c + m)))))"

definition compute_claim_score :: "string \<Rightarrow> pyval \<Rightarrow> pyval \<Rightarrow> pydict \<Rightarrow> exn + int" where
  "compute_claim_score coverage_status exclusions_applicable risk_flags policy =
     ebind (claim_score_sum coverage_status exclusions_applicable risk_flags policy)
       (\<lambda>score. Inr (max 0 (min 100 score)))"

subsection \<open>The rule table of the specification\<close>

text \<open>
  The table of section 4.5 of the specification, written from its words over typed
  metadata: the waiting period in years, the co-pay percentage and the room-rent text.
  It is compared with \<open>compute_claim_score\<close> below.
\<close>

definition spec_coverage_base :: "string \<Rightarrow> int" where
  "spec_coverage_base status =
     (if status = ''covered'' then 50 else if status = ''partially_covered'' then 25 else 0)"

definition spec_wait_bonus :: "rat \<Rightarrow> int" where
  "spec_wait_bonus years = (if years \<le> 1 then 20 else if years \<le> 2 then 12 else 0)"

definition spec_exclusion_delta :: "nat \<Rightarrow> int" where
  "spec_exclusion_delta n = (if n = 0 then 15 else - 25)"

definition spec_risk_delta :: "nat \<Rightarrow> int" where
  "spec_risk_delta n = (if n = 0 then 10 else - min (5 * int n) 20)"

definition spec_co_pay_delta :: "rat \<Rightarrow> int" where
  "spec_co_pay_delta pct = (if pct > 0 then - 5 else 0)"

definition spec_room_delta :: "string \<Rightarrow> int" where
  "spec_room_delta room =
     (if CHR ''%'' \<in> set room then - 10
      else if room \<noteq> [] \<and>
              str_lower room \<notin> {''no limit'', ''no sub-limits'', ''no restriction''}
      then - 5 else 0)"

definition spec_claim_score :: "string \<Rightarrow> nat \<Rightarrow> nat \<Rightarrow> rat \<Rightarrow> rat \<Rightarrow> string \<Rightarrow> int" where
  "spec_claim_score status n_excl n_flags years pct room =
     max 0 (min 100 (spec_coverage_base status + spec_wait_bonus years
        + spec_exclusion_delta n_excl + spec_risk_delta n_flags
        + spec_co_pay_delta pct + spec_room_delta room))"

text \<open>
  Reading the typed metadata from a policy row. A field is absent when its key is missing
  or its value is \<open>None\<close>; the defaults are 4 years, 0 percent and no room-rent text.
\<close>

definition meta_years :: "pydict \<Rightarrow> rat" where
  "meta_years policy =
     (case num_of (dget policy ''waiting_period_preexisting_years'') of
        None \<Rightarrow> 4 | Some r \<Rightarrow> r)"

definition meta_co_pay :: "pydict \<Rightarrow> rat" where
  "meta_co_pay policy =
     (case num_of (dget policy ''co_pay_percent'') of None \<Rightarrow> 0 | Some r \<Rightarrow> r)"

definition meta_room :: "pydict \<Rightarrow> string" where
  "meta_room policy =
     (case dget policy ''room_rent_limit'' of VStr s \<Rightarrow> s | _ \<Rightarrow> [])"

text \<open>
  Metadata on which the source does not raise: the two numeric fields are missing or
  hold a number, the room-rent field is missing, \<open>None\<close> or a string.
\<close>

definition numeric_or_missing :: "pydict \<Rightarrow> string \<Rightarrow> bool" where
  "numeric_or_missing policy k =
     (case map_of policy k of None \<Rightarrow> True | Some v \<Rightarrow> num_of v \<noteq> None)"

definition text_or_absent :: "pydict \<Rightarrow> string \<Rightarrow> bool" where
  "text_or_absent policy k =
     (case dget policy k of VNone \<Rightarrow> True | VStr s \<Rightarrow> True | _ \<Rightarrow> False)"

definition metadata_ok :: "pydict \<Rightarrow> bool" where
  "metadata_ok policy =
     (numeric_or_missing policy ''waiting_period_preexisting_years'' \<and>
      numeric_or_missing policy ''co_pay_percent'' \<and>
      text_or_absent policy ''room_rent_limit'')"

section \<open>Evidence chunks and deduplication\<close>

text \<open>
  An evidence chunk is a dictionary; its identifier is \<open>chunk.get("id")\<close>. The source
  keeps the identifiers seen so far in a set, so an identifier must be hashable (a
  non-empty list or dictionary raises \<open>TypeError\<close>), and two identifiers are the same
  element when Python's \<open>==\<close> holds: numbers by value (\<open>True == 1 == 1.0\<close>), strings by
  content. \<open>hkey\<close> maps an identifier to a representative of its equality class.
\<close>

type_synonym chunk = pydict

definition chunk_id :: "chunk \<Rightarrow> pyval" where
  "chunk_id c = dget c ''id''"

fun hashable :: "pyval \<Rightarrow> bool" where
  "hashable (VList xs) = False"
| "hashable (VDict d) = False"
| "hashable _ = True"

fun hkey :: "pyval \<Rightarrow> pyval" where
  "hkey (VBool b) = VFloat (if b then 1 else 0)"
| "hkey (VInt i) = VFloat (of_int i)"
| "hkey v = v"

definition chunk_key :: "chunk \<Rightarrow> pyval" where
  "chunk_key c = hkey (chunk_id c)"

text \<open>
  \<open>_dedupe\<close> (lines 281 to 290): the loop over \<open>chunks\<close> with its two local variables,
  the set \<open>seen\<close> and the list \<open>result\<close>.
\<close>

fun dedupe_loop :: "pyval set \<Rightarrow> chunk list \<Rightarrow> chunk list \<Rightarrow> exn + chunk list" where
  "dedupe_loop seen result [] = Inr result"
| "dedupe_loop seen result (c # chunks) =
     (let cid = chunk_id c in
      if \<not> truthy cid then dedupe_loop seen result chunks
      else if \<not> hashable cid then Inl TypeError
      else if hkey cid \<notin> seen then dedupe_loop (insert (hkey cid) seen) (result @ [c]) chunks
      else dedupe_loop seen result chunks)"

definition dedupe :: "chunk list \<Rightarrow> exn + chunk list" where
  "dedupe chunks = dedupe_loop {} [] chunks"

subsection \<open>Deduplication and rank fusion as the specification words them\<close>

text \<open>
  Section 4.2, step 4: deduplicate by chunk identifier preserving first-seen order. Every
  chunk is kept unless an earlier chunk has the same identifier.
\<close>

fun first_seen :: "pyval set \<Rightarrow> chunk list \<Rightarrow> chunk list" where
  "first_seen seen [] = []"
| "first_seen seen (c # cs) =
     (if chunk_key c \<in> seen then first_seen seen cs
      else c # first_seen (insert (chunk_key c) seen) cs)"

definition spec_dedupe :: "chunk list \<Rightarrow> chunk list" where
  "spec_dedupe cs = first_seen {} cs"

text \<open>
  Section 4.2, step 5: the rank of an identifier in a ranked list, counted from 1 (from
  \<open>n\<close> here) at the first chunk that carries it, and the term \<open>1 / (k + rank)\<close> the
  list contributes to the fused score, with the constant \<open>k = 60\<close>; a list in which the
  identifier does not occur contributes 0.
\<close>

fun rank_from :: "nat \<Rightarrow> pyval \<Rightarrow> chunk list \<Rightarrow> nat option" where
  "rank_from n k [] = None"
| "rank_from n k (c # cs) = (if chunk_key c = k then Some n else rank_from (Suc n) k cs)"

definition rrf_term :: "pyval \<Rightarrow> chunk list \<Rightarrow> rat" where
  "rrf_term k ranked =
     (case rank_from 1 k ranked of None \<Rightarrow> 0 | Some r \<Rightarrow> 1 / (60 + of_nat r))"

definition rrf_score :: "chunk list \<Rightarrow> chunk list \<Rightarrow> chunk \<Rightarrow> rat" where
  "rrf_score semantic keyword c =
     rrf_term (chunk_key c) semantic + rrf_term (chunk_key c) keyword"

text \<open>
  Modelled from the spec: \<open>vector_store.rrf_fusion\<close>, which the engine calls in line
  224, is not among the sources. Section 4.2, step 5: each chunk's fused score is the
  sum of its terms over the two ranked lists; the candidates, one chunk per identifier in
  input order, are sorted by descending score, ties in input order (\<open>sort_key\<close> is
  stable), and cut to \<open>top_k\<close>.
\<close>

definition spec_rrf_fusion :: "chunk list \<Rightarrow> chunk list \<Rightarrow> nat \<Rightarrow> chunk list" where
  "spec_rrf_fusion semantic keyword top_k =
     take top_k
       (sort_key (\<lambda>c. - rrf_score semantic keyword c) (spec_dedupe (semantic @ keyword)))"

section \<open>The claim-check pipeline\<close>

subsection \<open>Collaborators\<close>

text \<open>
  The evidence store, the embedder, the analysis service and \<open>find_uploaded_for_insurer\<close>
  are not part of the engine. Each is a function of its arguments that returns a value
  (\<open>Inr\<close>) or raises (\<open>Inl m\<close>, with \<open>m = str(e)\<close>); \<open>'v\<close> is the type of embedding
  vectors. \<open>chat_json\<close> is \<open>llm.chat_json(GROUNDED_CLAIM_SYSTEM, user_prompt,
  temperature=0.0)\<close> as a function of the user prompt, its other two arguments being
  constants. \<open>py_str\<close> is what an f-string writes for a value that is not a string.

  \<open>text_lower\<close> and \<open>text_upper\<close> are Python's \<open>str.lower\<close> and \<open>str.upper\<close> on text
  that the pipeline does not compare with a literal: insurer names, which it compares
  with each other, and section tags, which it prints. They are taken as they are, so
  that letters outside ASCII change case as Python has it.
\<close>

record 'v services =
  get_catalog_policy :: "string \<Rightarrow> string + pydict option"
  get_policy_by_id :: "string \<Rightarrow> string + pydict option"
  list_catalog_policies :: "string + pydict list"
  find_uploaded_for_insurer :: "pyval \<Rightarrow> string + pydict option"
  embed_text :: "string \<Rightarrow> string + 'v"
  semantic_search :: "'v \<Rightarrow> pyval \<Rightarrow> nat \<Rightarrow> string + chunk list"
  section_search :: "'v \<Rightarrow> pyval \<Rightarrow> string list \<Rightarrow> nat \<Rightarrow> string + chunk list"
  keyword_search :: "string \<Rightarrow> pyval \<Rightarrow> nat \<Rightarrow> string + chunk list"
  rrf_fusion :: "chunk list \<Rightarrow> chunk list \<Rightarrow> nat \<Rightarrow> string + chunk list"
  chat_json :: "string \<Rightarrow> string + pydict"
  py_str :: "pyval \<Rightarrow> string"
  text_lower :: "string \<Rightarrow> string"
  text_upper :: "string \<Rightarrow> string"

text \<open>The calls the engine issues, and what came back, in the order of execution.\<close>

datatype 'v call =
    GetCatalogPolicy string
  | FindUploadedForInsurer pyval
  | GetPolicyById string
  | ListCatalogPolicies
  | EmbedText string
  | SemanticSearch 'v pyval nat
  | SectionSearch 'v pyval "string list" nat
  | KeywordSearch string pyval nat
  | RrfFusion "chunk list" "chunk list" nat
  | ChatJson string

datatype 'v reply =
    Failed string
  | Policy "pydict option"
  | Policies "pydict list"
  | Vector 'v
  | Chunks "chunk list"
  | Json pydict

type_synonym 'v trace = "('v call \<times> 'v reply) list"

text \<open>
  A step of the function body either goes on with a value or stops the function: with an
  exception that reaches the caller, or with a \<open>return\<close> statement. Every step carries
  the calls it made.
\<close>

datatype stop = Raise exn | Return pydict

type_synonym ('v, 'a) step = "(stop + 'a) \<times> 'v trace"

definition sbind :: "('v, 'a) step \<Rightarrow> ('a \<Rightarrow> ('v, 'b) step) \<Rightarrow> ('v, 'b) step" where
  "sbind m f =
     (case m of
        (Inl s, tr) \<Rightarrow> (Inl s, tr)
      | (Inr a, tr) \<Rightarrow> (case f a of (r, tr') \<Rightarrow> (r, tr @ tr')))"

definition continue :: "'a \<Rightarrow> ('v, 'a) step" where
  "continue a = (Inr a, [])"

definition return_dict :: "pydict \<Rightarrow> ('v, 'a) step" where
  "return_dict d = (Inl (Return d), [])"

definition local_step :: "exn + 'a \<Rightarrow> ('v, 'a) step" where
  "local_step r = (case r of Inl e \<Rightarrow> (Inl (Raise e), []) | Inr a \<Rightarrow> (Inr a, []))"

definition reply_of :: "('a \<Rightarrow> 'v reply) \<Rightarrow> string + 'a \<Rightarrow> 'v reply" where
  "reply_of wrap r = (case r of Inl m \<Rightarrow> Failed m | Inr a \<Rightarrow> wrap a)"

definition call :: "'v call \<Rightarrow> ('a \<Rightarrow> 'v reply) \<Rightarrow> string + 'a \<Rightarrow> ('v, 'a) step" where
  "call c wrap r =
     (case r of
        Inl m \<Rightarrow> (Inl (Raise (Raised m)), [(c, reply_of wrap r)])
      | Inr a \<Rightarrow> (Inr a, [(c, reply_of wrap r)]))"

text \<open>
  \<open>if d:\<close> on the result of a lookup: \<open>None\<close> and the empty dictionary are false.
  Where \<open>found d\<close> holds, \<open>dict_of d\<close> is the dictionary.
\<close>

fun found :: "pydict option \<Rightarrow> bool" where
  "found None = False"
| "found (Some d) = (d \<noteq> [])"

fun dict_of :: "pydict option \<Rightarrow> pydict" where
  "dict_of None = []"
| "dict_of (Some d) = d"

text \<open>
  A value inside an f-string: a string is written as it is. The line feed and the em
  dash of the source's messages, the latter as its three UTF-8 bytes.
\<close>

definition fmt :: "'v services \<Rightarrow> pyval \<Rightarrow> string" where
  "fmt sv v = (case v of VStr s \<Rightarrow> s | _ \<Rightarrow> py_str sv v)"

definition newline :: string where
  "newline = [CHR 0x0A]"

definition em_dash :: string where
  "em_dash = [CHR 0xE2, CHR 0x80, CHR 0x94]"

text \<open>\<open>v.lower()\<close> and \<open>v.upper()\<close> on an arbitrary object: only \<open>str\<close> has the methods.\<close>

definition lower_method :: "'v services \<Rightarrow> pyval \<Rightarrow> exn + string" where
  "lower_method sv v = (case v of VStr s \<Rightarrow> Inr (text_lower sv s) | _ \<Rightarrow> Inl AttributeError)"

definition upper_method :: "'v services \<Rightarrow> pyval \<Rightarrow> exn + string" where
  "upper_method sv v = (case v of VStr s \<Rightarrow> Inr (text_upper sv s) | _ \<Rightarrow> Inl AttributeError)"

definition CLAIM_SECTIONS :: "string list" where
  "CLAIM_SECTIONS = [''exclusions'', ''coverage'', ''waiting_periods'', ''conditions'', ''limits'']"

subsection \<open>Context block\<close>

text \<open>\<open>_build_context_block\<close> (lines 47 to 53); \<open>i\<close> is the number of the next chunk.\<close>

definition context_part :: "'v services \<Rightarrow> nat \<Rightarrow> chunk \<Rightarrow> exn + string" where
  "context_part sv i c =
     ebind (upper_method sv (dget_default c ''section_type'' (VStr ''general''))) (\<lambda>section.
       let page = dget_default c ''page_number'' (VStr ''?'') in
       case map_of c ''content'' of
         None \<Rightarrow> Inl (KeyError ''content'')
       | Some content \<Rightarrow>
           Inr (''[CHUNK '' @ fmt sv (VInt (int i)) @ '' | Section: '' @ section
                @ '' | Page: '' @ fmt sv page @ '']'' @ newline @ fmt sv content))"

fun context_parts :: "'v services \<Rightarrow> nat \<Rightarrow> chunk list \<Rightarrow> exn + string list" where
  "context_parts sv i [] = Inr []"
| "context_parts sv i (c # cs) =
     (case context_part sv i c of
        Inl e \<Rightarrow> Inl e
      | Inr p \<Rightarrow> (case context_parts sv (Suc i) cs of Inl e \<Rightarrow> Inl e | Inr ps \<Rightarrow> Inr (p # ps)))"

fun join :: "string \<Rightarrow> string list \<Rightarrow> string" where
  "join sep [] = []"
| "join sep [p] = p"
| "join sep (p # q # ps) = p @ sep @ join sep (q # ps)"

definition build_context_block :: "'v services \<Rightarrow> chunk list \<Rightarrow> exn + string" where
  "build_context_block sv chunks =
     ebind (context_parts sv 1 chunks) (\<lambda>parts.
       Inr (join (newline @ newline @ ''---'' @ newline @ newline) parts))"

subsection \<open>Step 1: the policy and the document to search\<close>

definition no_document_message :: "'v services \<Rightarrow> pyval \<Rightarrow> pyval \<Rightarrow> string" where
  "no_document_message sv policy_name insurer =
     ''No embedded policy document found for '' @ fmt sv policy_name @ '' (''
     @ fmt sv insurer @ ''). Claim check requires an uploaded and indexed PDF. ''
     @ ''Currently only Tata AIG policies have embedded documents '' @ em_dash
     @ '' please select a Tata AIG policy or upload this policy'' @ [CHR 0x27]
     @ ''s PDF first.''"

definition SCORING_FIELDS :: "string list" where
  "SCORING_FIELDS =
     [''waiting_period_preexisting_years'', ''co_pay_percent'', ''room_rent_limit'',
      ''waiting_period_maternity_months'', ''covers_maternity'', ''covers_opd'']"

text \<open>The inner loop of lines 187 to 192: \<open>policy[field] = cp[field]\<close> where permitted.\<close>

fun merge_fields :: "pydict \<Rightarrow> pydict \<Rightarrow> string list \<Rightarrow> pydict" where
  "merge_fields policy cp [] = policy"
| "merge_fields policy cp (field # rest) =
     (if dget cp field \<noteq> VNone \<and> dget policy field = VNone
      then merge_fields (AList.update field (dget cp field) policy) cp rest
      else merge_fields policy cp rest)"

text \<open>
  The loop of lines 183 to 193 over the catalog, left by \<open>break\<close> at the first match.
  \<open>ins in cp_ins\<close> on two strings is the substring test; on UTF-8 text a string occurs in
  another as a sequence of characters exactly when it does as a sequence of bytes.
\<close>

fun enrich :: "'v services \<Rightarrow> string \<Rightarrow> pydict \<Rightarrow> pydict list \<Rightarrow> exn + pydict" where
  "enrich sv ins policy [] = Inr policy"
| "enrich sv ins policy (cp # all_catalog) =
     (case lower_method sv (py_or (dget cp ''insurer'') (VStr [])) of
        Inl e \<Rightarrow> Inl e
      | Inr cp_ins \<Rightarrow>
          if ins \<noteq> [] \<and> (sublist ins cp_ins \<or> sublist cp_ins ins)
          then Inr (merge_fields policy cp SCORING_FIELDS)
          else enrich sv ins policy all_catalog)"

text \<open>
  The result of step 1: the metadata to score against, the display name and the
  identifier of the document to search.
\<close>

type_synonym resolved = "pydict \<times> pyval \<times> pyval"

text \<open>
  Lines 155 to 170, the catalog path: the metadata is the catalog record, the document is
  the one \<open>find_uploaded_for_insurer\<close> returns for the record's insurer.
\<close>

definition catalog_path :: "'v services \<Rightarrow> pydict \<Rightarrow> ('v, resolved) step" where
  "catalog_path sv catalog_policy =
     (let policy = catalog_policy;
          policy_name = py_or (dget policy ''name'') (VStr ''Unknown Policy'');
          insurer = dget_default policy ''insurer'' (VStr [])
      in sbind (call (FindUploadedForInsurer insurer) Policy (find_uploaded_for_insurer sv insurer))
           (\<lambda>uploaded_match.
              if \<not> found uploaded_match
              then return_dict [(''error'', VStr (no_document_message sv policy_name insurer))]
              else (case map_of (dict_of uploaded_match) ''id'' of
                      None \<Rightarrow> local_step (Inl (KeyError ''id''))
                    | Some search_policy_id \<Rightarrow>
                        continue (policy, policy_name, search_policy_id))))"

text \<open>
  Lines 171 to 193, the uploaded path: the document is the reference itself, the metadata
  is the uploaded record after enrichment.
\<close>

definition uploaded_path :: "'v services \<Rightarrow> string \<Rightarrow> ('v, resolved) step" where
  "uploaded_path sv policy_id =
     sbind (call (GetPolicyById policy_id) Policy (get_policy_by_id sv policy_id))
       (\<lambda>uploaded_opt.
          if \<not> found uploaded_opt
          then return_dict [(''error'', VStr ''Policy not found.'')]
          else
            (let uploaded = dict_of uploaded_opt;
                 policy_name = py_or (dget uploaded ''user_label'') (VStr ''Unknown Policy'');
                 search_policy_id = VStr policy_id
             in sbind (call ListCatalogPolicies Policies (list_catalog_policies sv))
                  (\<lambda>all_catalog.
                     sbind (local_step
                              (ebind (lower_method sv (py_or (dget uploaded ''insurer'') (VStr [])))
                                 (\<lambda>ins. enrich sv ins uploaded all_catalog)))
                       (\<lambda>policy. continue (policy, policy_name, search_policy_id)))))"

text \<open>Line 153 and the branch of line 155.\<close>

definition resolve_policy :: "'v services \<Rightarrow> string \<Rightarrow> ('v, resolved) step" where
  "resolve_policy sv policy_id =
     sbind (call (GetCatalogPolicy policy_id) Policy (get_catalog_policy sv policy_id))
       (\<lambda>catalog_policy.
          if found catalog_policy then catalog_path sv (dict_of catalog_policy)
          else uploaded_path sv policy_id)"

subsection \<open>Steps 2 to 7: embedding, retrieval, fusion and the no-evidence guard\<close>

definition PROBE_TEXT :: string where
  "PROBE_TEXT = ''inpatient hospitalization benefit covered illness treatment''"

text \<open>Lines 197 to 200: a failure of the query embedding becomes the returned error.\<close>

definition embed_query :: "'v services \<Rightarrow> string \<Rightarrow> ('v, 'v) step" where
  "embed_query sv query_text =
     (case embed_text sv query_text of
        Inl m \<Rightarrow> (Inl (Return [(''error'', VStr (''Embedding failed: '' @ m))]),
                  [(EmbedText query_text, Failed m)])
      | Inr v \<Rightarrow> (Inr v, [(EmbedText query_text, Vector v)]))"

text \<open>Lines 203 to 206: a failure of the probe embedding falls back to the query vector.\<close>

definition embed_coverage :: "'v services \<Rightarrow> 'v \<Rightarrow> ('v, 'v) step" where
  "embed_coverage sv query_embedding =
     (case embed_text sv PROBE_TEXT of
        Inl m \<Rightarrow> (Inr query_embedding, [(EmbedText PROBE_TEXT, Failed m)])
      | Inr v \<Rightarrow> (Inr v, [(EmbedText PROBE_TEXT, Vector v)]))"

definition no_evidence_message :: "string \<Rightarrow> string" where
  "no_evidence_message condition =
     ''No relevant policy clause found for '' @ [CHR 0x27] @ condition @ [CHR 0x27]
     @ ''. The policy document may not contain information about this condition, ''
     @ ''or the document may not be indexed correctly.''"

text \<open>Steps 3 to 7 (lines 208 to 232), given the two vectors.\<close>

definition search_and_fuse ::
  "'v services \<Rightarrow> 'v \<Rightarrow> 'v \<Rightarrow> pyval \<Rightarrow> string \<Rightarrow> ('v, chunk list) step" where
  "search_and_fuse sv query_embedding coverage_embedding search_policy_id condition =
     sbind (call (SemanticSearch query_embedding search_policy_id 6) Chunks
              (semantic_search sv query_embedding search_policy_id 6)) (\<lambda>sem_chunks.
     sbind (call (SemanticSearch coverage_embedding search_policy_id 4) Chunks
              (semantic_search sv coverage_embedding search_policy_id 4)) (\<lambda>cov_chunks.
     sbind (call (SectionSearch query_embedding search_policy_id CLAIM_SECTIONS 4) Chunks
              (section_search sv query_embedding search_policy_id CLAIM_SECTIONS 4)) (\<lambda>sec_chunks.
     sbind (call (KeywordSearch condition search_policy_id 10) Chunks
              (keyword_search sv condition search_policy_id 10)) (\<lambda>kw_chunks.
     sbind (local_step (dedupe (sem_chunks @ cov_chunks @ sec_chunks))) (\<lambda>combined_sem.
     sbind (call (RrfFusion combined_sem kw_chunks 10) Chunks
              (rrf_fusion sv combined_sem kw_chunks 10)) (\<lambda>fused.
       if fused = [] then return_dict [(''error'', VStr (no_evidence_message condition))]
       else continue fused))))))"

definition retrieve_evidence ::
  "'v services \<Rightarrow> pyval \<Rightarrow> string \<Rightarrow> string \<Rightarrow> ('v, chunk list) step" where
  "retrieve_evidence sv search_policy_id condition treatment_type =
     sbind (embed_query sv (condition @ '' '' @ treatment_type)) (\<lambda>query_embedding.
     sbind (embed_coverage sv query_embedding) (\<lambda>coverage_embedding.
       search_and_fuse sv query_embedding coverage_embedding search_policy_id condition))"

subsection \<open>Steps 8 to 10: grounded analysis, normalisation and the score\<close>

definition user_prompt_of :: "string \<Rightarrow> string \<Rightarrow> string \<Rightarrow> string" where
  "user_prompt_of context_block condition treatment_type =
     ''CONTEXT BLOCK:'' @ newline @ context_block @ newline @ newline
     @ ''CONDITION TO ANALYZE: '' @ condition @ newline
     @ ''TREATMENT TYPE: '' @ treatment_type @ newline @ newline
     @ ''Analyze whether this condition/treatment is covered, excluded, or restricted ''
     @ ''based ONLY on the context block above. Be decisive '' @ em_dash @ '' use ''
     @ [CHR 0x27] @ ''covered'' @ [CHR 0x27] @ '' if general ''
     @ ''hospitalization is covered and no exclusion is found for this condition.''"

text \<open>Lines 249 to 251: anything but one of the four status strings becomes unknown.\<close>

definition normal_status :: "pydict \<Rightarrow> string" where
  "normal_status analysis =
     (case dget_default analysis ''coverage_status'' (VStr ''unknown'') of
        VStr s \<Rightarrow>
          if s \<notin> set [''covered'', ''partially_covered'', ''excluded'', ''unknown'']
          then ''unknown'' else s
      | _ \<Rightarrow> ''unknown'')"

definition RESULT_KEYS :: "string list" where
  "RESULT_KEYS =
     [''policy_name'', ''diagnosis'', ''treatment_type'', ''coverage_status'',
      ''feasibility_score'', ''severity_requirements'', ''waiting_period'',
      ''exclusions_applicable'', ''risk_flags'', ''required_documents'',
      ''analysis_summary'', ''chunks_used'', ''error'']"

definition analyze ::
  "'v services \<Rightarrow> pydict \<Rightarrow> pyval \<Rightarrow> string \<Rightarrow> string \<Rightarrow> chunk list \<Rightarrow> ('v, pydict) step" where
  "analyze sv policy policy_name condition treatment_type fused =
     sbind (local_step (build_context_block sv fused)) (\<lambda>context_block.
     let user_prompt = user_prompt_of context_block condition treatment_type in
     sbind (call (ChatJson user_prompt) Json (chat_json sv user_prompt)) (\<lambda>analysis.
     let coverage_status = normal_status analysis;
         severity_requirements = py_or (dget analysis ''severity_requirements'') (VList []);
         waiting_period = py_or (dget analysis ''waiting_period'') (VStr []);
         exclusions_applicable = py_or (dget analysis ''exclusions_applicable'') (VList []);
         risk_flags = py_or (dget analysis ''risk_flags'') (VList []);
         required_documents = py_or (dget analysis ''required_documents'') (VList []);
         analysis_summary = py_or (dget analysis ''analysis_summary'')
           (VStr ''Analysis could not be completed from available context.'')
     in
     sbind (local_step (compute_claim_score coverage_status exclusions_applicable risk_flags
              policy)) (\<lambda>feasibility_score.
       continue
         [(''policy_name'', policy_name),
          (''diagnosis'', VStr condition),
          (''treatment_type'', VStr treatment_type),
          (''coverage_status'', VStr coverage_status),
          (''feasibility_score'', VInt feasibility_score),
          (''severity_requirements'', severity_requirements),
          (''waiting_period'', waiting_period),
          (''exclusions_applicable'', exclusions_applicable),
          (''risk_flags'', risk_flags),
          (''required_documents'', required_documents),
          (''analysis_summary'', analysis_summary),
          (''chunks_used'', VInt (int (length fused))),
          (''error'', VNone)])))"

subsection \<open>The whole function\<close>

text \<open>
  \<open>run_claim_check\<close> (lines 142 to 278). The caller sees either an exception or the
  returned dictionary; the trace lists the collaborator calls of the run.
\<close>

definition run_steps :: "'v services \<Rightarrow> string \<Rightarrow> string \<Rightarrow> string \<Rightarrow> ('v, pydict) step" where
  "run_steps sv policy_id condition treatment_type =
     sbind (resolve_policy sv policy_id) (\<lambda>(policy, policy_name, search_policy_id).
     sbind (retrieve_evidence sv search_policy_id condition treatment_type) (\<lambda>fused.
       analyze sv policy policy_name condition treatment_type fused))"

definition outcome :: "stop + pydict \<Rightarrow> exn + pydict" where
  "outcome r = (case r of Inl (Raise e) \<Rightarrow> Inl e | Inl (Return d) \<Rightarrow> Inr d | Inr d \<Rightarrow> Inr d)"

definition run_claim_check ::
  "'v services \<Rightarrow> string \<Rightarrow> string \<Rightarrow> string \<Rightarrow> (exn + pydict) \<times> 'v trace" where
  "run_claim_check sv policy_id condition treatment_type =
     (case run_steps sv policy_id condition treatment_type of (r, tr) \<Rightarrow> (outcome r, tr))"

text \<open>The two shapes of a returned dictionary (section 3 of the specification).\<close>

definition error_result :: "pydict \<Rightarrow> bool" where
  "error_result d = (case d of [(k, VStr msg)] \<Rightarrow> k = ''error'' \<and> msg \<noteq> [] | _ \<Rightarrow> False)"

definition success_result :: "pydict \<Rightarrow> bool" where
  "success_result d = (map fst d = RESULT_KEYS \<and> dget d ''error'' = VNone)"

text \<open>The document a retrieval call searches.\<close>

fun searched_document :: "'v call \<Rightarrow> pyval option" where
  "searched_document (SemanticSearch v doc k) = Some doc"
| "searched_document (SectionSearch v doc secs k) = Some doc"
| "searched_document (KeywordSearch t doc k) = Some doc"
| "searched_document _ = None"

fun is_chat_json :: "'v call \<Rightarrow> bool" where
  "is_chat_json (ChatJson p) = True"
| "is_chat_json _ = False"

subsection \<open>Predicates used in the statements\<close>

text \<open>A chunk has an identifier when \<open>chunk.get("id")\<close> is true as a condition.\<close>

definition has_id :: "chunk \<Rightarrow> bool" where
  "has_id c = truthy (chunk_id c)"

text \<open>Every identifier present in the list can be put into a set.\<close>

definition ids_hashable :: "chunk list \<Rightarrow> bool" where
  "ids_hashable cs = list_all (\<lambda>c. \<not> has_id c \<or> hashable (chunk_id c)) cs"

text \<open>The vector of the coverage search: the probe's embedding, or the query's.\<close>

definition coverage_vector :: "'v services \<Rightarrow> 'v \<Rightarrow> 'v" where
  "coverage_vector sv query_embedding =
     (case embed_text sv PROBE_TEXT of Inl m \<Rightarrow> query_embedding | Inr v \<Rightarrow> v)"

text \<open>
  The stage of the pipeline a call belongs to: 1 for the policy lookups of step 1, 2 for
  embedding, retrieval and fusion, 3 for the analysis service.
\<close>

fun stage_of :: "'v call \<Rightarrow> nat" where
  "stage_of (GetCatalogPolicy p) = 1"
| "stage_of (FindUploadedForInsurer i) = 1"
| "stage_of (GetPolicyById p) = 1"
| "stage_of ListCatalogPolicies = 1"
| "stage_of (ChatJson p) = 3"
| "stage_of _ = 2"

text \<open>
  The insurer and the display name the catalog path reads from a catalog record
  (lines 158 and 159).
\<close>

definition catalog_insurer :: "pydict option \<Rightarrow> pyval" where
  "catalog_insurer cp = dget_default (dict_of cp) ''insurer'' (VStr [])"

definition catalog_name :: "pydict option \<Rightarrow> pyval" where
  "catalog_name cp = py_or (dget (dict_of cp) ''name'') (VStr ''Unknown Policy'')"

text \<open>
  The insurer name of a record as the enrichment loop compares it (lines 181 and 184):
  the name in lower case, as \<open>str.lower\<close> gives it, the name being empty when the field
  is missing or \<open>None\<close>. A catalog record matches an uploaded insurer name when the
  lower-case name is non-empty and one of the two lower-case names is a substring of the
  other.
\<close>

definition insurer_lower :: "'v services \<Rightarrow> pydict \<Rightarrow> string" where
  "insurer_lower sv d = text_lower sv (case dget d ''insurer'' of VStr s \<Rightarrow> s | _ \<Rightarrow> [])"

definition insurer_match :: "'v services \<Rightarrow> string \<Rightarrow> pydict \<Rightarrow> bool" where
  "insurer_match sv ins cp =
     (ins \<noteq> [] \<and> (sublist ins (insurer_lower sv cp) \<or> sublist (insurer_lower sv cp) ins))"

subsection \<open>A small evidence store for the concrete runs\<close>

text \<open>
  One uploaded document \<open>u1\<close> of insurer Tata AIG with three indexed chunks, an uploaded
  document \<open>u2\<close> without insurer and without indexed text, a catalog policy \<open>c1\<close> of
  Tata AIG and a catalog policy \<open>c2\<close> of Star Health, who has no uploaded document. The
  catalog policy \<open>c4\<close> has no waiting period on record. An embedding vector is the
  embedded text itself. The text of this store is ASCII, where \<open>str.lower\<close> and
  \<open>str.upper\<close> change the case of the ASCII letters.
\<close>

definition upper_char :: "char \<Rightarrow> char" where
  "upper_char c = (let n = (of_char c :: nat) in if 97 \<le> n \<and> n \<le> 122 then char_of (n - 32) else c)"

definition demo_upload :: pydict where
  "demo_upload =
     [(''id'', VStr ''u1''), (''user_label'', VStr ''My policy''), (''insurer'', VStr ''Tata AIG''),
      (''co_pay_percent'', VNone), (''room_rent_limit'', VStr ''No limit'')]"

definition demo_catalog :: "pydict list" where
  "demo_catalog =
     [[(''id'', VStr ''c2''), (''name'', VStr ''Star Comprehensive''),
       (''insurer'', VStr ''Star Health''), (''waiting_period_preexisting_years'', VInt 3),
       (''co_pay_percent'', VInt 20)],
      [(''id'', VStr ''c1''), (''name'', VStr ''Medicare Premier''),
       (''insurer'', VStr ''TATA AIG General Insurance''),
       (''waiting_period_preexisting_years'', VInt 2), (''co_pay_percent'', VInt 10),
       (''room_rent_limit'', VStr ''1% of sum insured''), (''covers_opd'', VNone)],
      [(''id'', VStr ''c3''), (''name'', VStr ''Medicare Plus''), (''insurer'', VStr ''Tata AIG''),
       (''waiting_period_preexisting_years'', VInt 1), (''covers_opd'', VBool True)],
      [(''id'', VStr ''c4''), (''name'', VStr ''Medicare Lite''), (''insurer'', VStr ''Tata AIG''),
       (''waiting_period_preexisting_years'', VNone), (''co_pay_percent'', VInt 0)]]"

definition demo_chunks :: "chunk list" where
  "demo_chunks =
     [[(''id'', VStr ''k1''), (''section_type'', VStr ''exclusions''), (''page_number'', VInt 12),
       (''content'', VStr ''Cosmetic surgery is excluded.'')],
      [(''content'', VStr ''Loose page without identifier.'')],
      [(''id'', VStr ''k2''), (''section_type'', VStr ''coverage''),
       (''content'', VStr ''Inpatient hospitalization is covered.'')],
      [(''id'', VStr ''k1''), (''content'', VStr ''Cosmetic surgery is excluded.'')]]"

definition demo :: "string services" where
  "demo = \<lparr>
     get_catalog_policy = (\<lambda>p. Inr (find (\<lambda>cp. dget cp ''id'' = VStr p) demo_catalog)),
     get_policy_by_id = (\<lambda>p.
        if p = ''u1'' then Inr (Some demo_upload)
        else if p = ''u2'' then Inr (Some [(''id'', VStr ''u2'')])
        else Inr None),
     list_catalog_policies = Inr demo_catalog,
     find_uploaded_for_insurer = (\<lambda>i.
        if i = VStr ''TATA AIG General Insurance'' \<or> i = VStr ''Tata AIG''
        then Inr (Some demo_upload) else Inr None),
     embed_text = (\<lambda>t. if t = ''vertigo therapy'' then Inl ''model offline'' else Inr t),
     semantic_search = (\<lambda>v d k. Inr (if d = VStr ''u1'' then take k demo_chunks else [])),
     section_search = (\<lambda>v d secs k. Inr (if d = VStr ''u1'' then take 1 demo_chunks else [])),
     keyword_search = (\<lambda>t d k. Inr (if d = VStr ''u1'' then take 3 (rev demo_chunks) else [])),
     rrf_fusion = (\<lambda>a b k. Inr (spec_rrf_fusion a b k)),
     chat_json = (\<lambda>p. Inr [(''coverage_status'', VStr ''excluded''),
        (''exclusions_applicable'', VList [VStr ''Cosmetic surgery is excluded.'']),
        (''risk_flags'', VList [VStr ''pre_auth_required''])]),
     py_str = (\<lambda>v. ''?''),
     text_lower = str_lower,
     text_upper = map upper_char \<rparr>"

text \<open>The same store behind a failing probe embedding, and behind a failing analysis service.\<close>

definition demo_probe_down :: "string services" where
  "demo_probe_down =
     demo \<lparr> embed_text := (\<lambda>t. if t = PROBE_TEXT then Inl ''model offline'' else Inr t) \<rparr>"

definition demo_llm_down :: "string services" where
  "demo_llm_down = demo \<lparr> chat_json := (\<lambda>p. Inl ''service unavailable'') \<rparr>"

text \<open>The same store, every uploaded record of which has the empty insurer name.\<close>

definition demo_blank_insurer :: "string services" where
  "demo_blank_insurer =
     demo \<lparr> get_policy_by_id := (\<lambda>p. Inr (Some [(''id'', VStr p), (''insurer'', VStr [])])) \<rparr>"

text \<open>
  A store with an insurer name outside ASCII, Credit Sante with an acute accent on
  either e: the uploaded record carries it in capitals, the one catalog record in mixed
  case. The capital E with acute accent is the bytes \<open>0xC3 0x89\<close>, the small one the
  bytes \<open>0xC3 0xA9\<close>; \<open>latin_lower\<close> is \<open>str.lower\<close> on text of the ASCII letters and
  these two.
\<close>

fun latin_lower :: "string \<Rightarrow> string" where
  "latin_lower (a # b # s) =
     (if a = CHR 0xC3 \<and> b = CHR 0x89 then CHR 0xC3 # CHR 0xA9 # latin_lower s
      else lower_char a # latin_lower (b # s))"
| "latin_lower [a] = [lower_char a]"
| "latin_lower [] = []"

definition CREDIT_SANTE :: string where
  "CREDIT_SANTE = ''CR'' @ [CHR 0xC3, CHR 0x89] @ ''DIT SANT'' @ [CHR 0xC3, CHR 0x89]"

definition Credit_Sante :: string where
  "Credit_Sante = ''Cr'' @ [CHR 0xC3, CHR 0xA9] @ ''dit Sant'' @ [CHR 0xC3, CHR 0xA9]"

definition accent_upload :: pydict where
  "accent_upload = [(''id'', VStr ''u1''), (''insurer'', VStr CREDIT_SANTE)]"

definition accent_catalog :: "pydict list" where
  "accent_catalog =
     [[(''id'', VStr ''c5''), (''insurer'', VStr Credit_Sante), (''co_pay_percent'', VInt 15)]]"

definition demo_accent :: "string services" where
  "demo_accent =
     demo \<lparr> get_policy_by_id := (\<lambda>p. if p = ''u1'' then Inr (Some accent_upload) else Inr None),
            list_catalog_policies := Inr accent_catalog,
            text_lower := latin_lower \<rparr>"

section \<open>Properties of the scoring engine\<close>

lemma str_lower_Nil [simp]: "str_lower s = [] \<longleftrightarrow> s = []"
  by (simp add: str_lower_def)

lemma ped_bonus_table:
  "numeric_or_missing policy ''waiting_period_preexisting_years'' \<Longrightarrow>
   ped_bonus policy = Inr (spec_wait_bonus (meta_years policy))"
  by (auto simp: numeric_or_missing_def ped_bonus_def dget_default_def dget_def py_le_def
      ebind_def spec_wait_bonus_def meta_years_def split: option.splits)

lemma co_pay_penalty_table:
  "numeric_or_missing policy ''co_pay_percent'' \<Longrightarrow>
   co_pay_penalty policy = Inr (spec_co_pay_delta (meta_co_pay policy))"
  by (auto simp: numeric_or_missing_def co_pay_penalty_def dget_default_def dget_def py_gt_def
      ebind_def spec_co_pay_delta_def meta_co_pay_def split: option.splits)

lemma room_penalty_table:
  "text_or_absent policy ''room_rent_limit'' \<Longrightarrow>
   room_penalty policy = Inr (spec_room_delta (meta_room policy))"
  by (auto simp: text_or_absent_def room_penalty_def py_or_def percent_in_def py_lower_def
      ebind_def spec_room_delta_def meta_room_def Let_def split: pyval.splits)

lemma exclusion_delta_table:
  "exclusion_delta (VList excl) = spec_exclusion_delta (length excl)"
  by (simp add: exclusion_delta_def py_or_def spec_exclusion_delta_def)

lemma risk_delta_table:
  "risk_delta (VList flags) = Inr (spec_risk_delta (length flags))"
  by (simp add: risk_delta_def py_or_def py_len_def ebind_def spec_risk_delta_def mult.commute)

lemma coverage_base_table: "coverage_base status = spec_coverage_base (str_lower status)"
  by (simp add: coverage_base_def spec_coverage_base_def)

lemma claim_score_sum_table:
  assumes "metadata_ok policy"
  shows "claim_score_sum status (VList excl) (VList flags) policy =
         Inr (spec_coverage_base (str_lower status) + spec_wait_bonus (meta_years policy)
              + spec_exclusion_delta (length excl) + spec_risk_delta (length flags)
              + spec_co_pay_delta (meta_co_pay policy) + spec_room_delta (meta_room policy))"
  using assms
  by (simp add: metadata_ok_def claim_score_sum_def ebind_def ped_bonus_table
      co_pay_penalty_table room_penalty_table exclusion_delta_table risk_delta_table
      coverage_base_table)

lemma compute_claim_score_table:
  assumes "metadata_ok policy"
  shows "compute_claim_score status (VList excl) (VList flags) policy =
         Inr (spec_claim_score (str_lower status) (length excl) (length flags)
                (meta_years policy) (meta_co_pay policy) (meta_room policy))"
  by (simp add: compute_claim_score_def claim_score_sum_table [OF assms] ebind_def
      spec_claim_score_def)

lemma spec_claim_score_range:
  "0 \<le> spec_claim_score status n_excl n_flags years pct room \<and>
   spec_claim_score status n_excl n_flags years pct room \<le> 100"
  by (simp add: spec_claim_score_def)

lemma compute_claim_score_range:
  "compute_claim_score status excl flags policy = Inr s \<Longrightarrow> 0 \<le> s \<and> s \<le> 100"
  by (auto simp: compute_claim_score_def ebind_def split: sum.splits)

subsection \<open>Bounds of the single deltas\<close>

lemma coverage_base_le: "coverage_base status \<le> 50"
  by (simp add: coverage_base_def Let_def)

lemma ped_bonus_le: "ped_bonus policy = Inr w \<Longrightarrow> w \<le> 20"
  by (auto simp: ped_bonus_def ebind_def Let_def split: sum.splits if_splits)

lemma py_len_nonneg: "py_len v = Inr n \<Longrightarrow> 0 \<le> n"
  by (auto simp: py_len_def split: pyval.splits)

lemma risk_delta_le: "risk_delta flags = Inr r \<Longrightarrow> r \<le> 10"
  by (auto simp: risk_delta_def ebind_def Let_def split: sum.splits if_splits
      dest!: py_len_nonneg)

lemma co_pay_penalty_le: "co_pay_penalty policy = Inr c \<Longrightarrow> c \<le> 0"
  by (auto simp: co_pay_penalty_def ebind_def split: sum.splits if_splits)

lemma room_penalty_le: "room_penalty policy = Inr m \<Longrightarrow> m \<le> 0"
  by (auto simp: room_penalty_def ebind_def Let_def split: sum.splits if_splits)

lemma claim_score_sum_Inr:
  "claim_score_sum status excl flags policy = Inr s \<longleftrightarrow>
     (\<exists>w r c m. ped_bonus policy = Inr w \<and> risk_delta flags = Inr r \<and>
        co_pay_penalty policy = Inr c \<and> room_penalty policy = Inr m \<and>
        s = coverage_base status + w + exclusion_delta excl + r + c + m)"
  by (auto simp: claim_score_sum_def ebind_def split: sum.splits)

lemma compute_claim_score_Inr:
  "compute_claim_score status excl flags policy = Inr a \<longleftrightarrow>
     (\<exists>s. claim_score_sum status excl flags policy = Inr s \<and> a = max 0 (min 100 s))"
  by (auto simp: compute_claim_score_def ebind_def split: sum.splits)

lemma claim_score_sum_no_exclusion_le:
  assumes "claim_score_sum status (VList []) flags policy = Inr s"
  shows "s \<le> 95"
proof -
  from assms obtain w r c m where
    parts: "ped_bonus policy = Inr w" "risk_delta flags = Inr r"
      "co_pay_penalty policy = Inr c" "room_penalty policy = Inr m" and
    s: "s = coverage_base status + w + exclusion_delta (VList []) + r + c + m"
    unfolding claim_score_sum_Inr by blast
  have "exclusion_delta (VList []) = 15"
    by (simp add: exclusion_delta_def py_or_def)
  with s coverage_base_le [of status] ped_bonus_le [OF parts(1)] risk_delta_le [OF parts(2)]
    co_pay_penalty_le [OF parts(3)] room_penalty_le [OF parts(4)]
  show ?thesis by linarith
qed

lemma risk_delta_append:
  "risk_delta (VList flags) = Inr r \<Longrightarrow>
   \<exists>r'. risk_delta (VList (flags @ [x])) = Inr r' \<and> r' \<le> r"
  by (auto simp: risk_delta_table spec_risk_delta_def)

lemma exclusion_delta_nonempty: "exclusion_delta (VList (e # es)) = exclusion_delta (VList []) - 40"
  by (simp add: exclusion_delta_def py_or_def)

subsection \<open>Claims about the score\<close>

text \<open>
  C1. For every status string, exclusions list, risk-flag list and policy-metadata
  dictionary, \<open>compute_claim_score\<close> is to return the clamped sum of the rule table, the
  waiting period defaulting to 4 years when the field is absent. On a policy row whose
  waiting-period field is present with the value \<open>None\<close> the source evaluates
  \<open>None <= 1\<close> and raises \<open>TypeError\<close>, where the rule table gives 50 + 0 + 15 + 10 = 75.
  (On metadata whose numeric fields are missing or numbers the two agree, which is
  \<open>compute_claim_score_table\<close>, and the result lies between 0 and 100. A whole run
  on a catalog record with such a field is \<open>run_claim_check_none_wait_raises\<close>.)
\<close>

theorem compute_claim_score_none_wait_raises:
  "compute_claim_score ''covered'' (VList []) (VList [])
     [(''waiting_period_preexisting_years'', VNone)] = Inl TypeError
   \<and> spec_claim_score ''covered'' 0 0
       (meta_years [(''waiting_period_preexisting_years'', VNone)])
       (meta_co_pay [(''waiting_period_preexisting_years'', VNone)])
       (meta_room [(''waiting_period_preexisting_years'', VNone)]) = 75"
  by (simp add: compute_claim_score_def claim_score_sum_def ped_bonus_def dget_default_def
      py_le_def ebind_def spec_claim_score_def spec_coverage_base_def spec_wait_bonus_def
      spec_exclusion_delta_def spec_risk_delta_def spec_co_pay_delta_def spec_room_delta_def
      meta_years_def meta_co_pay_def meta_room_def dget_def)

text \<open>
  C2, as stated: replacing an empty exclusions list by a non-empty one lowers the returned
  score by exactly 25. The exclusion delta goes from +15 to -25, so the score falls by 40:
  with status covered, no risk flags and empty metadata it goes from 75 to 35.
\<close>

theorem exclusion_decrease_is_not_25:
  "compute_claim_score ''covered'' (VList []) (VList []) [] = Inr 75 \<and>
   compute_claim_score ''covered'' (VList [VStr ''Cosmetic surgery is excluded'']) (VList []) []
     = Inr 35 \<and>
   (75 :: int) - 35 \<noteq> 25"
  by (simp add: compute_claim_score_def claim_score_sum_def ped_bonus_def dget_default_def
      dget_def py_le_def py_gt_def ebind_def coverage_base_def str_lower_def lower_char_def
      exclusion_delta_def risk_delta_def co_pay_penalty_def room_penalty_def py_or_def)

text \<open>
  C2, amended. With all other arguments fixed and the call returning a score:
  appending one element to the risk-flag list never increases the score; replacing the
  empty exclusions list by a non-empty one lowers the sum before clamping by exactly 40,
  and the returned score \<open>a\<close> becomes \<open>max 0 (a - 40)\<close>.
\<close>

theorem risk_flag_and_exclusion_effect:
  "(compute_claim_score status excl (VList flags) policy = Inr a \<longrightarrow>
      (\<exists>b. compute_claim_score status excl (VList (flags @ [x])) policy = Inr b \<and> b \<le> a))
   \<and>
   (compute_claim_score status (VList []) risk policy = Inr a' \<longrightarrow>
      (\<exists>s. claim_score_sum status (VList []) risk policy = Inr s \<and>
           claim_score_sum status (VList (e # es)) risk policy = Inr (s - 40)) \<and>
      compute_claim_score status (VList (e # es)) risk policy = Inr (max 0 (a' - 40)))"
proof (intro conjI impI)
  assume "compute_claim_score status excl (VList flags) policy = Inr a"
  then obtain w r c m where
    parts: "ped_bonus policy = Inr w" "risk_delta (VList flags) = Inr r"
      "co_pay_penalty policy = Inr c" "room_penalty policy = Inr m" and
    a: "a = max 0 (min 100 (coverage_base status + w + exclusion_delta excl + r + c + m))"
    unfolding compute_claim_score_Inr claim_score_sum_Inr by blast
  from risk_delta_append [OF parts(2)] obtain r' where
    r': "risk_delta (VList (flags @ [x])) = Inr r'" "r' \<le> r" by blast
  have "compute_claim_score status excl (VList (flags @ [x])) policy =
        Inr (max 0 (min 100 (coverage_base status + w + exclusion_delta excl + r' + c + m)))"
    unfolding compute_claim_score_Inr claim_score_sum_Inr using parts r' by blast
  moreover have "max 0 (min 100 (coverage_base status + w + exclusion_delta excl + r' + c + m))
      \<le> a"
    using a r'(2) by linarith
  ultimately show
    "\<exists>b. compute_claim_score status excl (VList (flags @ [x])) policy = Inr b \<and> b \<le> a"
    by blast
next
  assume "compute_claim_score status (VList []) risk policy = Inr a'"
  then obtain s where
    s: "claim_score_sum status (VList []) risk policy = Inr s" and
    a': "a' = max 0 (min 100 s)"
    unfolding compute_claim_score_Inr by blast
  have s40: "claim_score_sum status (VList (e # es)) risk policy = Inr (s - 40)"
    using s unfolding claim_score_sum_Inr exclusion_delta_nonempty by auto
  from s s40 show "\<exists>s. claim_score_sum status (VList []) risk policy = Inr s \<and>
      claim_score_sum status (VList (e # es)) risk policy = Inr (s - 40)"
    by blast
  have "s \<le> 95" by (rule claim_score_sum_no_exclusion_le [OF s])
  then have "max 0 (min 100 (s - 40)) = max 0 (a' - 40)"
    using a' by linarith
  then show "compute_claim_score status (VList (e # es)) risk policy = Inr (max 0 (a' - 40))"
    unfolding compute_claim_score_Inr using s40 by auto
qed

theorem risk_flag_and_exclusion_effect_witness:
  "compute_claim_score ''covered'' (VList []) (VList []) [] = Inr 75 \<and>
   compute_claim_score ''covered'' (VList []) (VList ([] @ [VStr ''pre_auth_required''])) []
     = Inr 60 \<and>
   claim_score_sum ''covered'' (VList [VStr ''clause 4.2'']) (VList []) [] = Inr 35 \<and>
   compute_claim_score ''covered'' (VList [VStr ''clause 4.2'']) (VList []) [] = Inr 35"
proof -
  have a: "compute_claim_score ''covered'' (VList []) (VList []) [] = Inr 75"
    by (simp add: compute_claim_score_def claim_score_sum_def ped_bonus_def dget_default_def
        dget_def py_le_def py_gt_def ebind_def coverage_base_def str_lower_def lower_char_def
        exclusion_delta_def risk_delta_def co_pay_penalty_def room_penalty_def py_or_def)
  have s: "claim_score_sum ''covered'' (VList []) (VList []) [] = Inr 75"
    by (simp add: claim_score_sum_def ped_bonus_def dget_default_def
        dget_def py_le_def py_gt_def ebind_def coverage_base_def str_lower_def lower_char_def
        exclusion_delta_def risk_delta_def co_pay_penalty_def room_penalty_def py_or_def)
  have b: "compute_claim_score ''covered'' (VList []) (VList ([] @ [VStr ''pre_auth_required''])) []
     = Inr 60"
    by (simp add: compute_claim_score_def claim_score_sum_def ped_bonus_def dget_default_def
        dget_def py_le_def py_gt_def py_len_def ebind_def coverage_base_def str_lower_def
        lower_char_def exclusion_delta_def risk_delta_def co_pay_penalty_def room_penalty_def
        py_or_def)
  from risk_flag_and_exclusion_effect
    [of "''covered''" "VList []" "[]" "[]" 75 "VStr ''pre_auth_required''" "VList []" 75
        "VStr ''clause 4.2''" "[]"]
  show ?thesis using a s b by simp
qed

section \<open>Properties of deduplication and fusion\<close>

lemma first_seen_keys: "chunk_key ` set (first_seen seen cs) = chunk_key ` set cs - seen"
  by (induction cs arbitrary: seen) auto

lemma first_seen_key_fresh: "c \<in> set (first_seen seen cs) \<Longrightarrow> chunk_key c \<notin> seen"
  using first_seen_keys [of seen cs] by blast

lemma first_seen_subset: "set (first_seen seen cs) \<subseteq> set cs"
  by (induction cs arbitrary: seen) auto

lemma first_seen_distinct: "distinct (map chunk_key (first_seen seen cs))"
  by (induction cs arbitrary: seen) (auto simp: first_seen_keys)

lemma first_seen_subseq: "subseq (first_seen seen cs) cs"
  by (induction cs arbitrary: seen) auto

lemma first_seen_idem: "first_seen seen (first_seen seen cs) = first_seen seen cs"
  by (induction cs arbitrary: seen) auto

text \<open>A chunk that is kept is the first chunk of the input with its identifier.\<close>

lemma first_seen_first:
  "c \<in> set (first_seen seen cs) \<Longrightarrow> find (\<lambda>d. chunk_key d = chunk_key c) cs = Some c"
proof (induction cs arbitrary: seen)
  case Nil
  then show ?case by simp
next
  case (Cons x cs)
  show ?case
  proof (cases "chunk_key x \<in> seen")
    case True
    with Cons.prems have c: "c \<in> set (first_seen seen cs)" by simp
    from first_seen_key_fresh [OF c] True have "chunk_key x \<noteq> chunk_key c" by auto
    with Cons.IH [OF c] show ?thesis by simp
  next
    case False
    show ?thesis
    proof (cases "c = x")
      case True
      then show ?thesis by simp
    next
      case neq: False
      with Cons.prems False have c: "c \<in> set (first_seen (insert (chunk_key x) seen) cs)"
        by simp
      from first_seen_key_fresh [OF c] have "chunk_key x \<noteq> chunk_key c" by auto
      with Cons.IH [OF c] show ?thesis by simp
    qed
  qed
qed

lemma find_filter_conj: "find P (filter Q xs) = find (\<lambda>x. Q x \<and> P x) xs"
  by (induction xs) auto

subsection \<open>The loop of the source against the specification's wording\<close>

lemma dedupe_loop_first_seen:
  "ids_hashable cs \<Longrightarrow>
   dedupe_loop seen result cs = Inr (result @ first_seen seen (filter has_id cs))"
  by (induction cs arbitrary: seen result)
     (auto simp: ids_hashable_def has_id_def chunk_key_def Let_def)

lemma dedupe_loop_unhashable:
  "\<not> ids_hashable cs \<Longrightarrow> dedupe_loop seen result cs = Inl TypeError"
  by (induction cs arbitrary: seen result)
     (auto simp: ids_hashable_def has_id_def chunk_key_def Let_def)

lemma dedupe_eq:
  "dedupe cs = (if ids_hashable cs then Inr (spec_dedupe (filter has_id cs)) else Inl TypeError)"
  by (simp add: dedupe_def spec_dedupe_def dedupe_loop_first_seen dedupe_loop_unhashable)

lemma dedupe_Inr:
  "dedupe cs = Inr out \<longleftrightarrow> ids_hashable cs \<and> out = spec_dedupe (filter has_id cs)"
  by (auto simp: dedupe_eq)

lemma spec_dedupe_has_id: "c \<in> set (spec_dedupe (filter has_id cs)) \<Longrightarrow> has_id c"
  using first_seen_subset [of "{}" "filter has_id cs"] by (auto simp: spec_dedupe_def)

lemma spec_dedupe_subseq: "subseq (spec_dedupe (filter has_id cs)) cs"
proof -
  have "subseq (spec_dedupe (filter has_id cs)) (filter has_id cs)"
    by (simp add: spec_dedupe_def first_seen_subseq)
  then show ?thesis
    by (rule subseq_order.trans) simp
qed

lemma spec_dedupe_distinct: "distinct (map chunk_key (spec_dedupe cs))"
  by (simp add: spec_dedupe_def first_seen_distinct)

lemma spec_dedupe_first:
  assumes "c \<in> set (spec_dedupe (filter has_id cs))"
  shows "find (\<lambda>d. has_id d \<and> chunk_key d = chunk_key c) cs = Some c"
  using first_seen_first [of c "{}" "filter has_id cs"] assms
  by (simp add: spec_dedupe_def find_filter_conj)

lemma dedupe_idem:
  assumes "dedupe cs = Inr out"
  shows "dedupe out = Inr out"
proof -
  from assms have h: "ids_hashable cs" and out: "out = spec_dedupe (filter has_id cs)"
    by (simp_all add: dedupe_Inr)
  have sub: "set out \<subseteq> set cs"
    using first_seen_subset [of "{}" "filter has_id cs"] by (auto simp: out spec_dedupe_def)
  have ids: "\<forall>c\<in>set out. has_id c"
    using spec_dedupe_has_id out by blast
  from h sub have "ids_hashable out"
    by (auto simp: ids_hashable_def list_all_iff)
  moreover from ids have "filter has_id out = out"
    by (simp add: filter_id_conv)
  moreover have "spec_dedupe out = out"
    by (simp add: out spec_dedupe_def first_seen_idem)
  ultimately show ?thesis by (simp add: dedupe_eq)
qed

subsection \<open>Rank fusion as specified\<close>

lemma spec_rrf_fusion_distinct: "distinct (map chunk_key (spec_rrf_fusion semantic keyword k))"
proof -
  have "distinct (map chunk_key (spec_dedupe (semantic @ keyword)))"
    by (rule spec_dedupe_distinct)
  then have "distinct (map chunk_key
      (sort_key (\<lambda>c. - rrf_score semantic keyword c) (spec_dedupe (semantic @ keyword))))"
    by (simp add: distinct_map)
  then show ?thesis
    unfolding spec_rrf_fusion_def take_map [symmetric] by (rule distinct_take)
qed

lemma spec_rrf_fusion_length: "length (spec_rrf_fusion semantic keyword k) \<le> k"
  by (simp add: spec_rrf_fusion_def)

lemma spec_rrf_fusion_subset:
  "set (spec_rrf_fusion semantic keyword k) \<subseteq> set semantic \<union> set keyword"
proof -
  have "set (spec_rrf_fusion semantic keyword k) \<subseteq> set (spec_dedupe (semantic @ keyword))"
    unfolding spec_rrf_fusion_def using set_take_subset by fastforce
  also have "\<dots> \<subseteq> set (semantic @ keyword)"
    unfolding spec_dedupe_def by (rule first_seen_subset)
  finally show ?thesis by simp
qed

lemma spec_rrf_fusion_empty: "spec_rrf_fusion [] [] k = []"
  by (simp add: spec_rrf_fusion_def spec_dedupe_def)

lemma spec_dedupe_keys:
  "chunk_key ` set (spec_dedupe (filter has_id cs)) = chunk_key ` {x \<in> set cs. has_id x}"
  by (simp add: spec_dedupe_def first_seen_keys)

section \<open>Properties of the pipeline\<close>

subsection \<open>Results and traces of composed steps\<close>

lemma fst_sbind: "fst (sbind m f) = (case fst m of Inl s \<Rightarrow> Inl s | Inr a \<Rightarrow> fst (f a))"
  by (auto simp: sbind_def split: prod.splits sum.splits)

lemma snd_sbind:
  "snd (sbind m f) = (case fst m of Inl s \<Rightarrow> snd m | Inr a \<Rightarrow> snd m @ snd (f a))"
  by (auto simp: sbind_def split: prod.splits sum.splits)

lemma sbind_mem:
  "e \<in> set (snd (sbind m f)) \<longleftrightarrow>
     e \<in> set (snd m) \<or> (\<exists>a. fst m = Inr a \<and> e \<in> set (snd (f a)))"
  by (auto simp: snd_sbind split: sum.splits)

lemma sbind_Inr:
  "fst (sbind m f) = Inr b \<longleftrightarrow> (\<exists>a. fst m = Inr a \<and> fst (f a) = Inr b)"
  by (auto simp: fst_sbind split: sum.splits)

lemma sbind_Inl:
  "fst (sbind m f) = Inl s \<longleftrightarrow> fst m = Inl s \<or> (\<exists>a. fst m = Inr a \<and> fst (f a) = Inl s)"
  by (auto simp: fst_sbind split: sum.splits)

lemma call_Inr: "fst (call c w r) = Inr a \<longleftrightarrow> r = Inr a"
  by (simp add: call_def split: sum.splits)

lemma call_Inl: "fst (call c w r) = Inl s \<longleftrightarrow> (\<exists>m. r = Inl m \<and> s = Raise (Raised m))"
  by (auto simp: call_def split: sum.splits)

lemma snd_call: "snd (call c w r) = [(c, reply_of w r)]"
  by (simp add: call_def split: sum.splits)

lemma call_mem: "e \<in> set (snd (call c w r)) \<longleftrightarrow> e = (c, reply_of w r)"
  by (simp add: snd_call)

lemma local_step_Inr: "fst (local_step r) = Inr a \<longleftrightarrow> r = Inr a"
  by (simp add: local_step_def split: sum.splits)

lemma local_step_Inl: "fst (local_step r) = Inl s \<longleftrightarrow> (\<exists>e. r = Inl e \<and> s = Raise e)"
  by (auto simp: local_step_def split: sum.splits)

lemma snd_local_step: "snd (local_step r) = []"
  by (simp add: local_step_def split: sum.splits)

lemma continue_simps: "fst (continue a) = Inr a" "snd (continue a) = []"
  by (simp_all add: continue_def)

lemma return_dict_simps: "fst (return_dict d) = Inl (Return d)" "snd (return_dict d) = []"
  by (simp_all add: return_dict_def)

lemma embed_query_Inr: "fst (embed_query sv q) = Inr v \<longleftrightarrow> embed_text sv q = Inr v"
  by (simp add: embed_query_def split: sum.splits)

lemma embed_query_Inl:
  "fst (embed_query sv q) = Inl s \<longleftrightarrow>
     (\<exists>m. embed_text sv q = Inl m \<and> s = Return [(''error'', VStr (''Embedding failed: '' @ m))])"
  by (auto simp: embed_query_def split: sum.splits)

lemma snd_embed_query: "snd (embed_query sv q) = [(EmbedText q, reply_of Vector (embed_text sv q))]"
  by (simp add: embed_query_def reply_of_def split: sum.splits)

lemma fst_embed_coverage: "fst (embed_coverage sv qe) = Inr (coverage_vector sv qe)"
  by (simp add: embed_coverage_def coverage_vector_def split: sum.splits)

lemma snd_embed_coverage:
  "snd (embed_coverage sv qe) = [(EmbedText PROBE_TEXT, reply_of Vector (embed_text sv PROBE_TEXT))]"
  by (simp add: embed_coverage_def reply_of_def split: sum.splits)

lemmas step_simps =
  sbind_mem sbind_Inr sbind_Inl call_Inr call_Inl call_mem local_step_Inr local_step_Inl
  snd_local_step continue_simps return_dict_simps embed_query_Inr embed_query_Inl
  snd_embed_query fst_embed_coverage snd_embed_coverage

lemma reply_of_Inr [simp]: "reply_of w (Inr a) = w a"
  by (simp add: reply_of_def)

lemma reply_of_Inl [simp]: "reply_of w (Inl m) = Failed m"
  by (simp add: reply_of_def)

lemma reply_of_Failed: "reply_of Policy r = Failed m \<longleftrightarrow> r = Inl m"
  "reply_of Policies r2 = Failed m \<longleftrightarrow> r2 = Inl m"
  "reply_of Vector r3 = Failed m \<longleftrightarrow> r3 = Inl m"
  "reply_of Chunks r4 = Failed m \<longleftrightarrow> r4 = Inl m"
  "reply_of Json r5 = Failed m \<longleftrightarrow> r5 = Inl m"
  by (auto simp: reply_of_def split: sum.splits)

lemma reply_of_value: "reply_of Policy r = Policy p \<longleftrightarrow> r = Inr p"
  "reply_of Policies r2 = Policies ps \<longleftrightarrow> r2 = Inr ps"
  "reply_of Vector r3 = Vector v \<longleftrightarrow> r3 = Inr v"
  "reply_of Chunks r4 = Chunks cs \<longleftrightarrow> r4 = Inr cs"
  "reply_of Json r5 = Json j \<longleftrightarrow> r5 = Inr j"
  by (auto simp: reply_of_def split: sum.splits)

lemma reply_of_value_sym: "Policy p = reply_of Policy r \<longleftrightarrow> r = Inr p"
  "Policies ps = reply_of Policies r2 \<longleftrightarrow> r2 = Inr ps"
  "Vector v = reply_of Vector r3 \<longleftrightarrow> r3 = Inr v"
  "Chunks cs = reply_of Chunks r4 \<longleftrightarrow> r4 = Inr cs"
  "Json j = reply_of Json r5 \<longleftrightarrow> r5 = Inr j"
  by (auto simp: reply_of_def split: sum.splits)

lemma reply_of_Failed_sym: "Failed m = reply_of Policy r \<longleftrightarrow> r = Inl m"
  "Failed m = reply_of Policies r2 \<longleftrightarrow> r2 = Inl m"
  "Failed m = reply_of Vector r3 \<longleftrightarrow> r3 = Inl m"
  "Failed m = reply_of Chunks r4 \<longleftrightarrow> r4 = Inl m"
  "Failed m = reply_of Json r5 \<longleftrightarrow> r5 = Inl m"
  by (auto simp: reply_of_def split: sum.splits)

lemmas reply_simps = reply_of_value reply_of_value_sym reply_of_Failed reply_of_Failed_sym

lemma ebind_Inr: "ebind m f = Inr b \<longleftrightarrow> (\<exists>a. m = Inr a \<and> f a = Inr b)"
  by (auto simp: ebind_def split: sum.splits)

lemma ebind_Inl: "ebind m f = Inl e \<longleftrightarrow> m = Inl e \<or> (\<exists>a. m = Inr a \<and> f a = Inl e)"
  by (auto simp: ebind_def split: sum.splits)

text \<open>Evaluating a step whose collaborator replies are known.\<close>

lemma sbind_pair_Inr: "sbind (Inr a, tr) f = (fst (f a), tr @ snd (f a))"
  by (simp add: sbind_def case_prod_unfold)

lemma sbind_pair_Inl: "sbind (Inl s, tr) f = (Inl s, tr)"
  by (simp add: sbind_def)

lemma call_value: "call c w (Inr a) = (Inr a, [(c, w a)])"
  by (simp add: call_def)

lemma call_failure: "call c w (Inl m) = (Inl (Raise (Raised m)), [(c, Failed m)])"
  by (simp add: call_def)

lemma local_step_value: "local_step (Inr a) = (Inr a, [])"
  by (simp add: local_step_def)

lemma local_step_failure: "local_step (Inl e) = (Inl (Raise e), [])"
  by (simp add: local_step_def)

lemma embed_coverage_eq:
  "embed_coverage sv qe =
     (Inr (coverage_vector sv qe),
      [(EmbedText PROBE_TEXT, reply_of Vector (embed_text sv PROBE_TEXT))])"
  by (simp add: embed_coverage_def coverage_vector_def split: sum.splits)

lemma embed_query_value:
  "embed_text sv q = Inr v \<Longrightarrow> embed_query sv q = (Inr v, [(EmbedText q, Vector v)])"
  by (simp add: embed_query_def)

lemma embed_query_failure:
  "embed_text sv q = Inl m \<Longrightarrow>
   embed_query sv q =
     (Inl (Return [(''error'', VStr (''Embedding failed: '' @ m))]), [(EmbedText q, Failed m)])"
  by (simp add: embed_query_def)

lemmas step_eval =
  sbind_pair_Inr sbind_pair_Inl call_value call_failure local_step_value local_step_failure
  embed_coverage_eq embed_query_value embed_query_failure continue_def return_dict_def

subsection \<open>The three stages of a run\<close>

lemma catalog_path_stage: "e \<in> set (snd (catalog_path sv cp)) \<Longrightarrow> stage_of (fst e) = 1"
  by (auto simp: catalog_path_def Let_def step_simps split: if_splits option.splits)

lemma uploaded_path_stage: "e \<in> set (snd (uploaded_path sv pid)) \<Longrightarrow> stage_of (fst e) = 1"
  by (auto simp: uploaded_path_def Let_def step_simps split: if_splits)

lemma resolve_stage: "e \<in> set (snd (resolve_policy sv pid)) \<Longrightarrow> stage_of (fst e) = 1"
  by (auto simp: resolve_policy_def step_simps dest: catalog_path_stage uploaded_path_stage
      split: if_splits)

lemma retrieve_stage:
  "e \<in> set (snd (retrieve_evidence sv sid c t)) \<Longrightarrow> stage_of (fst e) = 2"
  by (auto simp: retrieve_evidence_def search_and_fuse_def step_simps split: if_splits)

lemma analyze_stage:
  "e \<in> set (snd (analyze sv policy name c t fused)) \<Longrightarrow> stage_of (fst e) = 3"
  by (auto simp: analyze_def Let_def step_simps)

lemma fst_run: "fst (run_claim_check sv pid c t) = outcome (fst (run_steps sv pid c t))"
  by (simp add: run_claim_check_def case_prod_unfold)

lemma snd_run: "snd (run_claim_check sv pid c t) = snd (run_steps sv pid c t)"
  by (simp add: run_claim_check_def case_prod_unfold)

lemma outcome_Inr: "outcome r = Inr d \<longleftrightarrow> r = Inl (Return d) \<or> r = Inr d"
  by (auto simp: outcome_def split: sum.splits stop.splits)

lemma outcome_Inl: "outcome r = Inl x \<longleftrightarrow> r = Inl (Raise x)"
  by (auto simp: outcome_def split: sum.splits stop.splits)

lemma run_mem:
  "e \<in> set (snd (run_claim_check sv pid c t)) \<longleftrightarrow>
     e \<in> set (snd (resolve_policy sv pid)) \<or>
     (\<exists>policy name sid. fst (resolve_policy sv pid) = Inr (policy, name, sid) \<and>
        (e \<in> set (snd (retrieve_evidence sv sid c t)) \<or>
         (\<exists>fused. fst (retrieve_evidence sv sid c t) = Inr fused \<and>
            e \<in> set (snd (analyze sv policy name c t fused)))))"
  by (auto simp: snd_run run_steps_def sbind_mem)

lemma run_Inr:
  "fst (run_claim_check sv pid c t) = Inr d \<longleftrightarrow>
     fst (resolve_policy sv pid) = Inl (Return d) \<or>
     (\<exists>policy name sid. fst (resolve_policy sv pid) = Inr (policy, name, sid) \<and>
        (fst (retrieve_evidence sv sid c t) = Inl (Return d) \<or>
         (\<exists>fused. fst (retrieve_evidence sv sid c t) = Inr fused \<and>
            (fst (analyze sv policy name c t fused) = Inl (Return d) \<or>
             fst (analyze sv policy name c t fused) = Inr d))))"
  by (auto simp: fst_run outcome_Inr run_steps_def sbind_Inr sbind_Inl)

lemma run_Inl:
  "fst (run_claim_check sv pid c t) = Inl x \<longleftrightarrow>
     fst (resolve_policy sv pid) = Inl (Raise x) \<or>
     (\<exists>policy name sid. fst (resolve_policy sv pid) = Inr (policy, name, sid) \<and>
        (fst (retrieve_evidence sv sid c t) = Inl (Raise x) \<or>
         (\<exists>fused. fst (retrieve_evidence sv sid c t) = Inr fused \<and>
            fst (analyze sv policy name c t fused) = Inl (Raise x))))"
  by (auto simp: fst_run outcome_Inl run_steps_def sbind_Inr sbind_Inl)

lemma run_stage1:
  assumes "e \<in> set (snd (run_claim_check sv pid c t))" "stage_of (fst e) = 1"
  shows "e \<in> set (snd (resolve_policy sv pid))"
  using assms by (auto simp: run_mem dest: retrieve_stage analyze_stage)

lemma run_stage2:
  assumes "e \<in> set (snd (run_claim_check sv pid c t))" "stage_of (fst e) = 2"
  shows "\<exists>policy name sid. fst (resolve_policy sv pid) = Inr (policy, name, sid) \<and>
           e \<in> set (snd (retrieve_evidence sv sid c t))"
  using assms by (auto simp: run_mem dest: resolve_stage analyze_stage)

lemma run_stage3:
  assumes "e \<in> set (snd (run_claim_check sv pid c t))" "stage_of (fst e) = 3"
  shows "\<exists>policy name sid fused. fst (resolve_policy sv pid) = Inr (policy, name, sid) \<and>
           fst (retrieve_evidence sv sid c t) = Inr fused \<and>
           e \<in> set (snd (analyze sv policy name c t fused))"
  using assms by (auto simp: run_mem dest: resolve_stage retrieve_stage)

subsection \<open>Step 1: the paths through policy resolution\<close>

lemma resolve_not_found:
  assumes "get_catalog_policy sv pid = Inr cp" "\<not> found cp"
    "get_policy_by_id sv pid = Inr u" "\<not> found u"
  shows "resolve_policy sv pid =
    (Inl (Return [(''error'', VStr ''Policy not found.'')]),
     [(GetCatalogPolicy pid, Policy cp), (GetPolicyById pid, Policy u)])"
  using assms
  by (simp add: resolve_policy_def uploaded_path_def sbind_def call_def return_dict_def)

lemma resolve_no_document:
  assumes "get_catalog_policy sv pid = Inr cp" "found cp"
    "find_uploaded_for_insurer sv (catalog_insurer cp) = Inr m" "\<not> found m"
  shows "resolve_policy sv pid =
    (Inl (Return [(''error'', VStr (no_document_message sv (catalog_name cp) (catalog_insurer cp)))]),
     [(GetCatalogPolicy pid, Policy cp), (FindUploadedForInsurer (catalog_insurer cp), Policy m)])"
  using assms
  by (simp add: resolve_policy_def catalog_path_def sbind_def call_def return_dict_def
      catalog_insurer_def catalog_name_def Let_def)

lemma resolve_by_id_event:
  assumes "(GetPolicyById p, Policy u) \<in> set (snd (resolve_policy sv pid))"
  shows "p = pid \<and> get_policy_by_id sv pid = Inr u \<and>
         (\<exists>cp. get_catalog_policy sv pid = Inr cp \<and> \<not> found cp)"
  using assms
  by (auto simp: resolve_policy_def uploaded_path_def catalog_path_def Let_def step_simps
      reply_simps split: if_splits option.splits)

lemma resolve_find_event:
  assumes "(FindUploadedForInsurer i, Policy m) \<in> set (snd (resolve_policy sv pid))"
  shows "\<exists>cp. get_catalog_policy sv pid = Inr cp \<and> found cp \<and> i = catalog_insurer cp \<and>
           find_uploaded_for_insurer sv i = Inr m"
  using assms
  by (auto simp: resolve_policy_def uploaded_path_def catalog_path_def Let_def step_simps
      reply_simps catalog_insurer_def split: if_splits option.splits)

lemma resolve_Return:
  assumes "fst (resolve_policy sv pid) = Inl (Return d)"
  shows "(\<exists>cp u. get_catalog_policy sv pid = Inr cp \<and> \<not> found cp \<and>
            get_policy_by_id sv pid = Inr u \<and> \<not> found u \<and>
            d = [(''error'', VStr ''Policy not found.'')]) \<or>
         (\<exists>cp m. get_catalog_policy sv pid = Inr cp \<and> found cp \<and>
            find_uploaded_for_insurer sv (catalog_insurer cp) = Inr m \<and> \<not> found m \<and>
            d = [(''error'', VStr (no_document_message sv (catalog_name cp) (catalog_insurer cp)))])"
  using assms
  by (auto simp: resolve_policy_def uploaded_path_def catalog_path_def Let_def step_simps
      catalog_insurer_def catalog_name_def split: if_splits option.splits)

lemma resolve_uploaded_eq:
  assumes "get_catalog_policy sv pid = Inr cp" "\<not> found cp"
    "get_policy_by_id sv pid = Inr u" "found u" "list_catalog_policies sv = Inr cat"
    "lower_method sv (py_or (dget (dict_of u) ''insurer'') (VStr [])) = Inr ins"
    "enrich sv ins (dict_of u) cat = Inr policy"
  shows "resolve_policy sv pid =
    (Inr (policy, py_or (dget (dict_of u) ''user_label'') (VStr ''Unknown Policy''), VStr pid),
     [(GetCatalogPolicy pid, Policy cp), (GetPolicyById pid, Policy u),
      (ListCatalogPolicies, Policies cat)])"
  using assms
  by (simp add: resolve_policy_def uploaded_path_def sbind_def call_def local_step_def
      continue_def ebind_def Let_def)

lemma resolve_uploaded:
  assumes "get_catalog_policy sv pid = Inr cp" "\<not> found cp"
    "fst (resolve_policy sv pid) = Inr (policy, name, sid)"
  shows "sid = VStr pid \<and>
    (\<exists>u cat ins. get_policy_by_id sv pid = Inr u \<and> found u \<and>
       list_catalog_policies sv = Inr cat \<and>
       lower_method sv (py_or (dget (dict_of u) ''insurer'') (VStr [])) = Inr ins \<and>
       enrich sv ins (dict_of u) cat = Inr policy \<and>
       name = py_or (dget (dict_of u) ''user_label'') (VStr ''Unknown Policy''))"
  using assms
  by (auto simp: resolve_policy_def uploaded_path_def Let_def step_simps ebind_Inr
      split: if_splits)

lemma resolve_catalog:
  assumes "get_catalog_policy sv pid = Inr cp" "found cp"
    "fst (resolve_policy sv pid) = Inr (policy, name, sid)"
  shows "policy = dict_of cp \<and> name = catalog_name cp \<and>
    (\<exists>m. find_uploaded_for_insurer sv (catalog_insurer cp) = Inr m \<and> found m \<and>
       map_of (dict_of m) ''id'' = Some sid)"
  using assms
  by (auto simp: resolve_policy_def catalog_path_def Let_def step_simps catalog_name_def
      catalog_insurer_def split: if_splits option.splits)

lemma resolve_Inr_catalog_reply:
  assumes "fst (resolve_policy sv pid) = Inr rp"
  shows "\<exists>cp. get_catalog_policy sv pid = Inr cp"
  using assms by (auto simp: resolve_policy_def step_simps)

lemma dget_update: "dget (AList.update k v al) k' = (if k' = k then v else dget al k')"
  by (simp add: dget_def update_conv')

lemma merge_fields_get:
  "dget (merge_fields policy cp fs) f =
     (if f \<in> set fs \<and> dget policy f = VNone then dget cp f else dget policy f)"
  by (induction fs arbitrary: policy) (auto simp: dget_update)

lemma lower_method_insurer:
  "text_or_absent d ''insurer'' \<Longrightarrow>
   lower_method sv (py_or (dget d ''insurer'') (VStr [])) = Inr (insurer_lower sv d)"
  by (auto simp: text_or_absent_def lower_method_def py_or_def insurer_lower_def
      split: pyval.splits)

lemma enrich_find:
  assumes "list_all (\<lambda>cp. text_or_absent cp ''insurer'') cat"
  shows "enrich sv ins policy cat =
     Inr (case find (insurer_match sv ins) cat of
            None \<Rightarrow> policy
          | Some cp \<Rightarrow> merge_fields policy cp SCORING_FIELDS)"
  using assms
  by (induction cat) (auto simp: lower_method_insurer insurer_match_def)

subsection \<open>Steps 2 to 7: the paths through retrieval\<close>

lemma retrieve_fusion_event:
  assumes "(RrfFusion a b k, r) \<in> set (snd (retrieve_evidence sv sid c t))"
  shows "\<exists>qe sem cov sec.
      embed_text sv (c @ '' '' @ t) = Inr qe \<and>
      semantic_search sv qe sid 6 = Inr sem \<and>
      semantic_search sv (coverage_vector sv qe) sid 4 = Inr cov \<and>
      section_search sv qe sid CLAIM_SECTIONS 4 = Inr sec \<and>
      keyword_search sv c sid 10 = Inr b \<and>
      dedupe (sem @ cov @ sec) = Inr a \<and> k = 10 \<and>
      r = reply_of Chunks (rrf_fusion sv a b 10)"
  using assms unfolding retrieve_evidence_def search_and_fuse_def
  by (auto simp: step_simps split: if_splits)

lemma retrieve_eq:
  assumes "embed_text sv (c @ '' '' @ t) = Inr qe"
    "semantic_search sv qe sid 6 = Inr sem"
    "semantic_search sv (coverage_vector sv qe) sid 4 = Inr cov"
    "section_search sv qe sid CLAIM_SECTIONS 4 = Inr sec"
    "keyword_search sv c sid 10 = Inr kw"
    "dedupe (sem @ cov @ sec) = Inr combined"
    "rrf_fusion sv combined kw 10 = Inr fused"
  shows "retrieve_evidence sv sid c t =
    (if fused = [] then Inl (Return [(''error'', VStr (no_evidence_message c))]) else Inr fused,
     [(EmbedText (c @ '' '' @ t), Vector qe),
      (EmbedText PROBE_TEXT, reply_of Vector (embed_text sv PROBE_TEXT)),
      (SemanticSearch qe sid 6, Chunks sem),
      (SemanticSearch (coverage_vector sv qe) sid 4, Chunks cov),
      (SectionSearch qe sid CLAIM_SECTIONS 4, Chunks sec),
      (KeywordSearch c sid 10, Chunks kw),
      (RrfFusion combined kw 10, Chunks fused)])"
  using assms by (simp add: retrieve_evidence_def search_and_fuse_def step_eval)

lemma retrieve_embed_failure:
  assumes "embed_text sv (c @ '' '' @ t) = Inl m"
  shows "retrieve_evidence sv sid c t =
    (Inl (Return [(''error'', VStr (''Embedding failed: '' @ m))]),
     [(EmbedText (c @ '' '' @ t), Failed m)])"
  using assms by (simp add: retrieve_evidence_def search_and_fuse_def step_eval)

lemma retrieve_embed_event:
  assumes "(EmbedText (c @ '' '' @ t), Failed m) \<in> set (snd (retrieve_evidence sv sid c t))"
  shows "embed_text sv (c @ '' '' @ t) = Inl m"
  using assms unfolding retrieve_evidence_def search_and_fuse_def
  by (auto simp: step_simps reply_simps split: if_splits)

lemma retrieve_Return:
  assumes "fst (retrieve_evidence sv sid c t) = Inl (Return d)"
  shows "(\<exists>m. embed_text sv (c @ '' '' @ t) = Inl m \<and>
            d = [(''error'', VStr (''Embedding failed: '' @ m))]) \<or>
         (\<exists>a b. (RrfFusion a b 10, Chunks []) \<in> set (snd (retrieve_evidence sv sid c t)) \<and>
            d = [(''error'', VStr (no_evidence_message c))])"
  using assms unfolding retrieve_evidence_def search_and_fuse_def
  by (auto simp: step_simps reply_simps split: if_splits)

lemma retrieve_Inr:
  assumes "fst (retrieve_evidence sv sid c t) = Inr fused"
  shows "fused \<noteq> [] \<and>
    (\<exists>a b. (RrfFusion a b 10, Chunks fused) \<in> set (snd (retrieve_evidence sv sid c t)))"
  using assms unfolding retrieve_evidence_def search_and_fuse_def
  by (auto simp: step_simps reply_simps split: if_splits)

lemma retrieve_search_event:
  assumes "e \<in> set (snd (retrieve_evidence sv sid c t))" "searched_document (fst e) = Some d"
  shows "d = sid"
  using assms unfolding retrieve_evidence_def search_and_fuse_def
  by (auto simp: step_simps split: if_splits)

lemma retrieve_search_replies:
  assumes "(KeywordSearch x d k, Chunks kw) \<in> set (snd (retrieve_evidence sv sid c t))"
  shows "\<exists>qe sem cov sec.
      embed_text sv (c @ '' '' @ t) = Inr qe \<and>
      semantic_search sv qe sid 6 = Inr sem \<and>
      semantic_search sv (coverage_vector sv qe) sid 4 = Inr cov \<and>
      section_search sv qe sid CLAIM_SECTIONS 4 = Inr sec \<and>
      keyword_search sv c sid 10 = Inr kw \<and> x = c \<and> d = sid \<and> k = 10"
  using assms unfolding retrieve_evidence_def search_and_fuse_def
  by (auto simp: step_simps reply_simps split: if_splits)

lemma retrieve_semantic_event:
  assumes "(SemanticSearch v d k, r) \<in> set (snd (retrieve_evidence sv sid c t))"
  shows "\<exists>qe. embed_text sv (c @ '' '' @ t) = Inr qe \<and> d = sid \<and>
      (k = 6 \<and> v = qe \<or> k = 4 \<and> v = coverage_vector sv qe) \<and>
      r = reply_of Chunks (semantic_search sv v sid k)"
  using assms unfolding retrieve_evidence_def search_and_fuse_def
  by (auto simp: step_simps reply_simps split: if_splits)

lemma retrieve_section_event:
  assumes "(SectionSearch v d secs k, r) \<in> set (snd (retrieve_evidence sv sid c t))"
  shows "embed_text sv (c @ '' '' @ t) = Inr v \<and> d = sid \<and> secs = CLAIM_SECTIONS \<and> k = 4 \<and>
      r = reply_of Chunks (section_search sv v sid CLAIM_SECTIONS 4)"
  using assms unfolding retrieve_evidence_def search_and_fuse_def
  by (auto simp: step_simps reply_simps split: if_splits)

lemma retrieve_search_events:
  assumes "embed_text sv (c @ '' '' @ t) = Inr qe"
    "semantic_search sv qe sid 6 = Inr sem"
    "semantic_search sv (coverage_vector sv qe) sid 4 = Inr cov"
    "section_search sv qe sid CLAIM_SECTIONS 4 = Inr sec"
  shows "(SemanticSearch qe sid 6, Chunks sem) \<in> set (snd (retrieve_evidence sv sid c t))"
    "(SemanticSearch (coverage_vector sv qe) sid 4, Chunks cov)
       \<in> set (snd (retrieve_evidence sv sid c t))"
    "(SectionSearch qe sid CLAIM_SECTIONS 4, Chunks sec)
       \<in> set (snd (retrieve_evidence sv sid c t))"
    "(KeywordSearch c sid 10, reply_of Chunks (keyword_search sv c sid 10))
       \<in> set (snd (retrieve_evidence sv sid c t))"
  using assms unfolding retrieve_evidence_def search_and_fuse_def
  by (auto simp: step_simps)

subsection \<open>Steps 8 to 10: the analysis stage\<close>

lemma analyze_no_return: "fst (analyze sv policy name c t fused) \<noteq> Inl (Return d)"
  by (auto simp: analyze_def Let_def step_simps)

lemma analyze_Inr:
  assumes "fst (analyze sv policy name c t fused) = Inr d"
  shows "success_result d"
  using assms
  by (auto simp: analyze_def Let_def step_simps success_result_def RESULT_KEYS_def dget_def)

lemma analyze_chat_event:
  assumes "(ChatJson p, r) \<in> set (snd (analyze sv policy name c t fused))"
  shows "\<exists>ctx. build_context_block sv fused = Inr ctx \<and> p = user_prompt_of ctx c t"
  using assms by (auto simp: analyze_def Let_def step_simps)

lemma context_parts_length:
  "context_parts sv i cs = Inr ps \<Longrightarrow> length ps = length cs"
  by (induction cs arbitrary: i ps) (auto split: sum.splits)

lemma context_part_nonempty: "context_part sv i c = Inr p \<Longrightarrow> p \<noteq> []"
  by (auto simp: context_part_def ebind_Inr Let_def split: option.splits)

lemma context_parts_nonempty:
  "context_parts sv i cs = Inr ps \<Longrightarrow> p \<in> set ps \<Longrightarrow> p \<noteq> []"
proof (induction cs arbitrary: i ps)
  case Nil
  then show ?case by simp
next
  case (Cons c cs)
  from Cons.prems(1) obtain q qs where
    q: "context_part sv i c = Inr q" and qs: "context_parts sv (Suc i) cs = Inr qs" and
    ps: "ps = q # qs"
    by (auto split: sum.splits)
  from Cons.prems(2) ps have "p = q \<or> p \<in> set qs" by simp
  then show ?case
    using context_part_nonempty [OF q] Cons.IH [OF qs] by blast
qed

lemma join_nonempty: "ps \<noteq> [] \<Longrightarrow> \<forall>p\<in>set ps. p \<noteq> [] \<Longrightarrow> join sep ps \<noteq> []"
  by (induction sep ps rule: join.induct) auto

lemma context_block_nonempty:
  assumes "fused \<noteq> []" "build_context_block sv fused = Inr ctx"
  shows "ctx \<noteq> []"
proof -
  from assms(2) obtain ps where ps: "context_parts sv 1 fused = Inr ps"
    and ctx: "ctx = join (newline @ newline @ ''---'' @ newline @ newline) ps"
    by (auto simp: build_context_block_def ebind_Inr)
  from context_parts_length [OF ps] assms(1) have "ps \<noteq> []" by auto
  moreover have "\<forall>p\<in>set ps. p \<noteq> []"
    using context_parts_nonempty [OF ps] by blast
  ultimately show ?thesis
    unfolding ctx by (rule join_nonempty)
qed

lemma error_result_single [simp]: "error_result [(''error'', VStr m)] \<longleftrightarrow> m \<noteq> []"
  by (simp add: error_result_def)

lemma no_evidence_message_nonempty: "no_evidence_message c \<noteq> []"
  by (simp add: no_evidence_message_def)

lemma no_document_message_nonempty: "no_document_message sv n i \<noteq> []"
  by (simp add: no_document_message_def)

subsection \<open>Whole runs\<close>

lemma run_eq_of_resolve_stop:
  assumes "resolve_policy sv pid = (Inl s, tr)"
  shows "run_claim_check sv pid c t = (outcome (Inl s), tr)"
  using assms by (simp add: run_claim_check_def run_steps_def step_eval)

lemma is_chat_json_stage: "is_chat_json cl \<Longrightarrow> stage_of cl = 3"
  by (cases cl) auto

lemma dedupe_Nil: "dedupe [] = Inr []"
  by (simp add: dedupe_def)

lemma run_fusion_event:
  assumes "(RrfFusion a b k, r) \<in> set (snd (run_claim_check sv pid c t))"
  shows "\<exists>policy name sid qe sem cov sec.
      fst (resolve_policy sv pid) = Inr (policy, name, sid) \<and>
      embed_text sv (c @ '' '' @ t) = Inr qe \<and>
      semantic_search sv qe sid 6 = Inr sem \<and>
      semantic_search sv (coverage_vector sv qe) sid 4 = Inr cov \<and>
      section_search sv qe sid CLAIM_SECTIONS 4 = Inr sec \<and>
      keyword_search sv c sid 10 = Inr b \<and>
      dedupe (sem @ cov @ sec) = Inr a \<and> k = 10 \<and>
      r = reply_of Chunks (rrf_fusion sv a b 10)"
proof -
  from run_stage2 [OF assms] obtain policy name sid where
    res: "fst (resolve_policy sv pid) = Inr (policy, name, sid)" and
    ev: "(RrfFusion a b k, r) \<in> set (snd (retrieve_evidence sv sid c t))"
    by auto
  from retrieve_fusion_event [OF ev] res show ?thesis by blast
qed

lemma run_no_evidence:
  assumes "(RrfFusion a b k, Chunks []) \<in> set (snd (run_claim_check sv pid c t))"
  shows "fst (run_claim_check sv pid c t) = Inr [(''error'', VStr (no_evidence_message c))]"
    and "\<forall>e\<in>set (snd (run_claim_check sv pid c t)). \<not> is_chat_json (fst e)"
proof -
  from run_fusion_event [OF assms] obtain policy name sid qe sem cov sec where
    res: "fst (resolve_policy sv pid) = Inr (policy, name, sid)" and
    facts: "embed_text sv (c @ '' '' @ t) = Inr qe"
      "semantic_search sv qe sid 6 = Inr sem"
      "semantic_search sv (coverage_vector sv qe) sid 4 = Inr cov"
      "section_search sv qe sid CLAIM_SECTIONS 4 = Inr sec"
      "keyword_search sv c sid 10 = Inr b"
      "dedupe (sem @ cov @ sec) = Inr a" and
    fused: "rrf_fusion sv a b 10 = Inr []"
    by (auto simp: reply_simps)
  have ret: "fst (retrieve_evidence sv sid c t) =
      Inl (Return [(''error'', VStr (no_evidence_message c))])"
    using retrieve_eq [OF facts fused] by simp
  show "fst (run_claim_check sv pid c t) = Inr [(''error'', VStr (no_evidence_message c))]"
    unfolding run_Inr using res ret by simp
  show "\<forall>e\<in>set (snd (run_claim_check sv pid c t)). \<not> is_chat_json (fst e)"
  proof
    fix e assume e: "e \<in> set (snd (run_claim_check sv pid c t))"
    then have "stage_of (fst e) \<noteq> 3"
      unfolding run_mem using res ret
      by (auto dest: resolve_stage retrieve_stage)
    then show "\<not> is_chat_json (fst e)"
      using is_chat_json_stage by blast
  qed
qed

lemma run_chat_event:
  assumes "(ChatJson p, r) \<in> set (snd (run_claim_check sv pid c t))"
  shows "\<exists>a b fused ctx.
      (RrfFusion a b 10, Chunks fused) \<in> set (snd (run_claim_check sv pid c t)) \<and>
      fused \<noteq> [] \<and> build_context_block sv fused = Inr ctx \<and> ctx \<noteq> [] \<and>
      p = user_prompt_of ctx c t"
proof -
  from run_stage3 [OF assms] obtain policy name sid fused where
    res: "fst (resolve_policy sv pid) = Inr (policy, name, sid)" and
    ret: "fst (retrieve_evidence sv sid c t) = Inr fused" and
    ev: "(ChatJson p, r) \<in> set (snd (analyze sv policy name c t fused))"
    by auto
  from retrieve_Inr [OF ret] obtain a b where
    ne: "fused \<noteq> []" and
    fu: "(RrfFusion a b 10, Chunks fused) \<in> set (snd (retrieve_evidence sv sid c t))"
    by blast
  from analyze_chat_event [OF ev] obtain ctx where
    ctx: "build_context_block sv fused = Inr ctx" "p = user_prompt_of ctx c t"
    by blast
  from fu res have "(RrfFusion a b 10, Chunks fused) \<in> set (snd (run_claim_check sv pid c t))"
    unfolding run_mem by blast
  with ne ctx context_block_nonempty [OF ne ctx(1)] show ?thesis by blast
qed

lemma run_all_searches_empty:
  assumes "(SemanticSearch qe sid 6, Chunks []) \<in> set (snd (run_claim_check sv pid c t))"
    "(SemanticSearch ce sid 4, Chunks []) \<in> set (snd (run_claim_check sv pid c t))"
    "(SectionSearch qe sid secs 4, Chunks []) \<in> set (snd (run_claim_check sv pid c t))"
    "(KeywordSearch c sid 10, Chunks []) \<in> set (snd (run_claim_check sv pid c t))"
    "rrf_fusion sv [] [] 10 = Inr []"
  shows "(RrfFusion [] [] 10, Chunks []) \<in> set (snd (run_claim_check sv pid c t))"
proof -
  from run_stage2 [OF assms(4)] obtain policy name sid' where
    res: "fst (resolve_policy sv pid) = Inr (policy, name, sid')" and
    kw: "(KeywordSearch c sid 10, Chunks []) \<in> set (snd (retrieve_evidence sv sid' c t))"
    by auto
  from retrieve_search_replies [OF kw] obtain qe' sem cov sec where
    facts: "embed_text sv (c @ '' '' @ t) = Inr qe'"
      "semantic_search sv qe' sid' 6 = Inr sem"
      "semantic_search sv (coverage_vector sv qe') sid' 4 = Inr cov"
      "section_search sv qe' sid' CLAIM_SECTIONS 4 = Inr sec"
      "keyword_search sv c sid' 10 = Inr []" and sid: "sid = sid'"
    by auto
  have in_ret: "e \<in> set (snd (retrieve_evidence sv sid' c t))"
    if "e \<in> set (snd (run_claim_check sv pid c t))" "stage_of (fst e) = 2" for e
    using run_stage2 [OF that] res by auto
  from retrieve_semantic_event [OF in_ret [OF assms(1)]] facts
  have sem: "sem = []" by (auto simp: reply_simps)
  from retrieve_semantic_event [OF in_ret [OF assms(2)]] facts
  have cov: "cov = []" by (auto simp: reply_simps)
  from retrieve_section_event [OF in_ret [OF assms(3)]] facts
  have sec: "sec = []" by (auto simp: reply_simps)
  have dd: "dedupe (sem @ cov @ sec) = Inr []"
    using sem cov sec by (simp add: dedupe_Nil)
  have "(RrfFusion [] [] 10, Chunks []) \<in> set (snd (retrieve_evidence sv sid' c t))"
    using retrieve_eq [OF facts(1-5) dd assms(5)] by simp
  with res show ?thesis unfolding run_mem by blast
qed

lemma searched_document_stage: "searched_document cl = Some d \<Longrightarrow> stage_of cl = 2"
  by (cases cl) auto

lemma resolve_find_call:
  assumes "(FindUploadedForInsurer i, r) \<in> set (snd (resolve_policy sv pid))"
  shows "\<exists>cp. get_catalog_policy sv pid = Inr cp \<and> found cp"
  using assms
  by (auto simp: resolve_policy_def uploaded_path_def catalog_path_def Let_def step_simps
      split: if_splits option.splits)

subsection \<open>Embedding failures\<close>

lemma fmt_embed_update [simp]: "fmt (sv\<lparr>embed_text := f\<rparr>) = fmt sv"
  by (rule ext) (simp add: fmt_def split: pyval.splits)

lemma lower_method_embed_update [simp]:
  "lower_method (sv\<lparr>embed_text := f\<rparr>) = lower_method sv"
  by (rule ext) (simp add: lower_method_def split: pyval.splits)

lemma upper_method_embed_update [simp]:
  "upper_method (sv\<lparr>embed_text := f\<rparr>) = upper_method sv"
  by (rule ext) (simp add: upper_method_def split: pyval.splits)

lemma enrich_embed_update [simp]:
  "enrich (sv\<lparr>embed_text := f\<rparr>) ins policy cat = enrich sv ins policy cat"
  by (induction cat) (auto split: sum.splits)

lemma context_part_embed_update [simp]:
  "context_part (sv\<lparr>embed_text := f\<rparr>) i c = context_part sv i c"
  by (simp add: context_part_def cong: option.case_cong)

lemma context_parts_embed_update [simp]:
  "context_parts (sv\<lparr>embed_text := f\<rparr>) i cs = context_parts sv i cs"
  by (induction cs arbitrary: i) (simp_all cong: sum.case_cong)

lemma analyze_embed_update [simp]:
  "analyze (sv\<lparr>embed_text := f\<rparr>) policy name c t fused = analyze sv policy name c t fused"
  by (simp add: analyze_def build_context_block_def)

lemma resolve_embed_update [simp]:
  "resolve_policy (sv\<lparr>embed_text := f\<rparr>) pid = resolve_policy sv pid"
  by (simp add: resolve_policy_def catalog_path_def uploaded_path_def no_document_message_def
      cong: option.case_cong if_cong)

lemma search_and_fuse_embed_update [simp]:
  "search_and_fuse (sv\<lparr>embed_text := f\<rparr>) qe ce sid c = search_and_fuse sv qe ce sid c"
  by (simp add: search_and_fuse_def)

lemma retrieve_embedded:
  assumes "embed_text sv (c @ '' '' @ t) = Inr qe"
  shows "fst (retrieve_evidence sv sid c t) =
         fst (search_and_fuse sv qe (coverage_vector sv qe) sid c)"
  unfolding retrieve_evidence_def
  by (simp only: fst_sbind embed_query_value [OF assms] embed_coverage_eq fst_conv sum.case)

lemma retrieve_probe_fallback:
  assumes "embed_text sv (c @ '' '' @ t) = Inr qe" "embed_text sv PROBE_TEXT = Inl m"
  shows "fst (retrieve_evidence (sv\<lparr>embed_text := (embed_text sv)(PROBE_TEXT := Inr qe)\<rparr>) sid c t)
       = fst (retrieve_evidence sv sid c t)"
proof -
  from assms have ne: "c @ '' '' @ t \<noteq> PROBE_TEXT" by auto
  have cv: "coverage_vector sv qe = qe"
    using assms(2) by (simp add: coverage_vector_def)
  have cv': "coverage_vector (sv\<lparr>embed_text := (embed_text sv)(PROBE_TEXT := Inr qe)\<rparr>) qe = qe"
    by (simp add: coverage_vector_def)
  have q': "embed_text (sv\<lparr>embed_text := (embed_text sv)(PROBE_TEXT := Inr qe)\<rparr>) (c @ '' '' @ t)
      = Inr qe"
    using assms(1) ne by simp
  show ?thesis
    by (simp only: retrieve_embedded [OF q'] retrieve_embedded [OF assms(1)] cv cv'
        search_and_fuse_embed_update)
qed

lemma run_probe_fallback:
  assumes "embed_text sv (c @ '' '' @ t) = Inr qe" "embed_text sv PROBE_TEXT = Inl m"
  shows "fst (run_claim_check (sv\<lparr>embed_text := (embed_text sv)(PROBE_TEXT := Inr qe)\<rparr>) pid c t)
       = fst (run_claim_check sv pid c t)"
  by (simp add: fst_run run_steps_def fst_sbind retrieve_probe_fallback [OF assms]
      case_prod_unfold cong: sum.case_cong)

lemma run_embed_events:
  assumes "(EmbedText q, r) \<in> set (snd (run_claim_check sv pid c t))"
  shows "(q = c @ '' '' @ t \<and> r = reply_of Vector (embed_text sv q)) \<or>
         (q = PROBE_TEXT \<and> r = reply_of Vector (embed_text sv PROBE_TEXT) \<and>
          (\<exists>qe. embed_text sv (c @ '' '' @ t) = Inr qe))"
proof -
  have "stage_of (fst (EmbedText q, r)) = 2" by simp
  from run_stage2 [OF assms this] obtain sid where
    "(EmbedText q, r) \<in> set (snd (retrieve_evidence sv sid c t))" by auto
  then show ?thesis
    unfolding retrieve_evidence_def search_and_fuse_def
    by (auto simp: step_simps split: if_splits)
qed

lemma run_primary_embedding_failed:
  assumes "(EmbedText (c @ '' '' @ t), Failed m) \<in> set (snd (run_claim_check sv pid c t))"
  shows "run_claim_check sv pid c t =
      (Inr [(''error'', VStr (''Embedding failed: '' @ m))],
       snd (resolve_policy sv pid) @ [(EmbedText (c @ '' '' @ t), Failed m)])"
proof -
  have "stage_of (fst (EmbedText (c @ '' '' @ t), Failed m)) = 2" by simp
  from run_stage2 [OF assms this] obtain policy name sid where
    res: "fst (resolve_policy sv pid) = Inr (policy, name, sid)" and
    ev: "(EmbedText (c @ '' '' @ t), Failed m) \<in> set (snd (retrieve_evidence sv sid c t))"
    by auto
  have emb: "embed_text sv (c @ '' '' @ t) = Inl m"
    by (rule retrieve_embed_event [OF ev])
  note ret = retrieve_embed_failure [OF emb, of sid]
  have "fst (run_claim_check sv pid c t) =
      Inr [(''error'', VStr (''Embedding failed: '' @ m))]"
    unfolding run_Inr using res ret by simp
  moreover have "snd (run_claim_check sv pid c t) =
      snd (resolve_policy sv pid) @ [(EmbedText (c @ '' '' @ t), Failed m)]"
    using res ret by (simp add: snd_run run_steps_def snd_sbind)
  ultimately show ?thesis
    by (metis prod.collapse)
qed

lemma retrieve_first_searches:
  assumes "embed_text sv (c @ '' '' @ t) = Inr qe"
  shows "(SemanticSearch qe sid 6, reply_of Chunks (semantic_search sv qe sid 6))
           \<in> set (snd (retrieve_evidence sv sid c t))"
    and "semantic_search sv qe sid 6 = Inr sem \<Longrightarrow>
         (SemanticSearch (coverage_vector sv qe) sid 4,
          reply_of Chunks (semantic_search sv (coverage_vector sv qe) sid 4))
           \<in> set (snd (retrieve_evidence sv sid c t))"
  using assms unfolding retrieve_evidence_def search_and_fuse_def
  by (auto simp: step_simps)

subsection \<open>Outcomes of a run\<close>

lemma success_not_error: "success_result d \<Longrightarrow> \<not> error_result d"
  by (auto simp: success_result_def error_result_def RESULT_KEYS_def
      split: list.splits pyval.splits)

lemma resolve_failed_call:
  assumes "(cl, Failed m) \<in> set (snd (resolve_policy sv pid))"
  shows "fst (resolve_policy sv pid) = Inl (Raise (Raised m))"
  using assms
  by (auto simp: resolve_policy_def uploaded_path_def catalog_path_def Let_def step_simps
      reply_simps split: if_splits option.splits)

lemma retrieve_failed_call:
  assumes "(cl, Failed m) \<in> set (snd (retrieve_evidence sv sid c t))" "\<forall>q. cl \<noteq> EmbedText q"
  shows "fst (retrieve_evidence sv sid c t) = Inl (Raise (Raised m))"
  using assms unfolding retrieve_evidence_def search_and_fuse_def
  by (auto simp: step_simps reply_simps split: if_splits)

lemma analyze_failed_call:
  assumes "(cl, Failed m) \<in> set (snd (analyze sv policy name c t fused))"
  shows "fst (analyze sv policy name c t fused) = Inl (Raise (Raised m))"
  using assms
  by (auto simp: analyze_def Let_def step_simps reply_simps)

lemma run_failed_call:
  assumes "(cl, Failed m) \<in> set (snd (run_claim_check sv pid c t))" "\<forall>q. cl \<noteq> EmbedText q"
  shows "fst (run_claim_check sv pid c t) = Inl (Raised m)"
  using assms unfolding run_mem run_Inl
  by (auto dest: resolve_failed_call retrieve_failed_call analyze_failed_call)

lemma run_not_found:
  assumes "(GetPolicyById p, Policy u) \<in> set (snd (run_claim_check sv pid c t))" "\<not> found u"
  shows "fst (run_claim_check sv pid c t) = Inr [(''error'', VStr ''Policy not found.'')]"
proof -
  have "stage_of (fst (GetPolicyById p, Policy u)) = 1" by simp
  from resolve_by_id_event [OF run_stage1 [OF assms(1) this]] obtain cp where
    "get_catalog_policy sv pid = Inr cp" "\<not> found cp" "get_policy_by_id sv pid = Inr u"
    by blast
  from run_eq_of_resolve_stop [OF resolve_not_found [OF this assms(2)]]
  show ?thesis by (simp add: outcome_def)
qed

lemma run_no_document:
  assumes "(FindUploadedForInsurer i, Policy mt) \<in> set (snd (run_claim_check sv pid c t))"
    "\<not> found mt"
  shows "\<exists>name. fst (run_claim_check sv pid c t) =
           Inr [(''error'', VStr (no_document_message sv name i))]"
proof -
  have "stage_of (fst (FindUploadedForInsurer i, Policy mt)) = 1" by simp
  from resolve_find_event [OF run_stage1 [OF assms(1) this]] obtain cp where
    cp: "get_catalog_policy sv pid = Inr cp" "found cp" and i: "i = catalog_insurer cp" and
    "find_uploaded_for_insurer sv i = Inr mt"
    by blast
  then have "find_uploaded_for_insurer sv (catalog_insurer cp) = Inr mt" by simp
  from run_eq_of_resolve_stop [OF resolve_no_document [OF cp this assms(2)]] i
  show ?thesis by (auto simp: outcome_def)
qed

lemma run_error_cause:
  assumes "fst (run_claim_check sv pid c t) = Inr d" "error_result d"
  shows "(\<exists>u. (GetPolicyById pid, Policy u) \<in> set (snd (run_claim_check sv pid c t)) \<and> \<not> found u) \<or>
         (\<exists>i mt. (FindUploadedForInsurer i, Policy mt) \<in> set (snd (run_claim_check sv pid c t)) \<and>
            \<not> found mt) \<or>
         (\<exists>m. (EmbedText (c @ '' '' @ t), Failed m) \<in> set (snd (run_claim_check sv pid c t))) \<or>
         (\<exists>a b. (RrfFusion a b 10, Chunks []) \<in> set (snd (run_claim_check sv pid c t)))"
proof -
  from assms(1) consider
    (res) "fst (resolve_policy sv pid) = Inl (Return d)"
  | (ret) policy name sid where "fst (resolve_policy sv pid) = Inr (policy, name, sid)"
      "fst (retrieve_evidence sv sid c t) = Inl (Return d)"
  | (ana) policy name fused where
      "fst (analyze sv policy name c t fused) = Inl (Return d) \<or>
       fst (analyze sv policy name c t fused) = Inr d"
    unfolding run_Inr by blast
  then show ?thesis
  proof cases
    case res
    from resolve_Return [OF res] show ?thesis
    proof (elim disjE exE conjE)
      fix cp u
      assume h: "get_catalog_policy sv pid = Inr cp" "\<not> found cp"
        "get_policy_by_id sv pid = Inr u" "\<not> found u"
      from resolve_not_found [OF h]
      have "(GetPolicyById pid, Policy u) \<in> set (snd (resolve_policy sv pid))" by simp
      with h(4) show ?thesis unfolding run_mem by blast
    next
      fix cp mt
      assume h: "get_catalog_policy sv pid = Inr cp" "found cp"
        "find_uploaded_for_insurer sv (catalog_insurer cp) = Inr mt" "\<not> found mt"
      from resolve_no_document [OF h]
      have "(FindUploadedForInsurer (catalog_insurer cp), Policy mt)
          \<in> set (snd (resolve_policy sv pid))" by simp
      with h(4) show ?thesis unfolding run_mem by blast
    qed
  next
    case ret
    from retrieve_Return [OF ret(2)] show ?thesis
    proof (elim disjE exE conjE)
      fix m
      assume "embed_text sv (c @ '' '' @ t) = Inl m"
      from retrieve_embed_failure [OF this, of sid]
      have "(EmbedText (c @ '' '' @ t), Failed m) \<in> set (snd (retrieve_evidence sv sid c t))"
        by simp
      with ret(1) show ?thesis unfolding run_mem by blast
    next
      fix a b
      assume "(RrfFusion a b 10, Chunks []) \<in> set (snd (retrieve_evidence sv sid c t))"
      with ret(1) show ?thesis unfolding run_mem by blast
    qed
  next
    case ana
    then have "success_result d"
      using analyze_no_return analyze_Inr by blast
    with assms(2) show ?thesis using success_not_error by blast
  qed
qed

lemma run_result_shape:
  assumes "fst (run_claim_check sv pid c t) = Inr d"
  shows "(error_result d \<and> \<not> success_result d) \<or> (success_result d \<and> \<not> error_result d)"
proof -
  from assms consider
    (res) "fst (resolve_policy sv pid) = Inl (Return d)"
  | (ret) sid where "fst (retrieve_evidence sv sid c t) = Inl (Return d)"
  | (ana) policy name fused where
      "fst (analyze sv policy name c t fused) = Inl (Return d) \<or>
       fst (analyze sv policy name c t fused) = Inr d"
    unfolding run_Inr by blast
  then have "error_result d \<or> success_result d"
  proof cases
    case res
    from resolve_Return [OF res] show ?thesis
      by (auto simp: no_document_message_nonempty)
  next
    case ret
    from retrieve_Return [OF ret] show ?thesis
      by (auto simp: no_evidence_message_nonempty)
  next
    case ana
    then show ?thesis using analyze_no_return analyze_Inr by blast
  qed
  then show ?thesis using success_not_error by blast
qed

text \<open>
  The catalog policy \<open>c4\<close> holds \<open>None\<close> for the waiting period. Its insurer has an
  uploaded document, evidence is found and analysed, and the score computation raises.
\<close>

lemma run_claim_check_none_wait_raises:
  "get_catalog_policy demo ''c4'' = Inr (Some (demo_catalog ! 3)) \<and>
   dget (demo_catalog ! 3) ''waiting_period_preexisting_years'' = VNone \<and>
   fst (run_claim_check demo ''c4'' ''cataract'' ''surgery'') = Inl TypeError"
  by code_simp

section \<open>Claims about the pipeline\<close>

text \<open>
  C6. A policy reference that resolves to a catalog policy whose insurer has no uploaded
  document (the lookup returns \<open>None\<close> or an empty record): the run returns the
  dictionary that holds only the error message, the message names the policy and the
  insurer and tells the user to upload the policy's PDF, and the two lookups are the only
  calls made, so nothing is searched and no score is computed.
\<close>

theorem catalog_policy_without_document:
  assumes "get_catalog_policy sv policy_id = Inr cp" "found cp"
    "find_uploaded_for_insurer sv (catalog_insurer cp) = Inr m" "\<not> found m"
  shows "run_claim_check sv policy_id condition treatment_type =
      (Inr [(''error'', VStr (no_document_message sv (catalog_name cp) (catalog_insurer cp)))],
       [(GetCatalogPolicy policy_id, Policy cp),
        (FindUploadedForInsurer (catalog_insurer cp), Policy m)])
    \<and> (\<forall>n i. dget (dict_of cp) ''name'' = VStr n \<and> n \<noteq> [] \<and>
              dget (dict_of cp) ''insurer'' = VStr i \<longrightarrow>
          no_document_message sv (catalog_name cp) (catalog_insurer cp) =
            ''No embedded policy document found for '' @ n @ '' ('' @ i
            @ ''). Claim check requires an uploaded and indexed PDF. ''
            @ ''Currently only Tata AIG policies have embedded documents '' @ em_dash
            @ '' please select a Tata AIG policy or upload this policy'' @ [CHR 0x27]
            @ ''s PDF first.'')"
proof (intro conjI allI impI)
  show "run_claim_check sv policy_id condition treatment_type =
      (Inr [(''error'', VStr (no_document_message sv (catalog_name cp) (catalog_insurer cp)))],
       [(GetCatalogPolicy policy_id, Policy cp),
        (FindUploadedForInsurer (catalog_insurer cp), Policy m)])"
    using run_eq_of_resolve_stop [OF resolve_no_document [OF assms]]
    by (simp add: outcome_def)
next
  fix n i
  assume h: "dget (dict_of cp) ''name'' = VStr n \<and> n \<noteq> [] \<and>
      dget (dict_of cp) ''insurer'' = VStr i"
  then have "catalog_name cp = VStr n"
    by (simp add: catalog_name_def py_or_def)
  moreover from h have "catalog_insurer cp = VStr i"
    by (auto simp: catalog_insurer_def dget_default_def dget_def split: option.splits)
  ultimately show "no_document_message sv (catalog_name cp) (catalog_insurer cp) =
            ''No embedded policy document found for '' @ n @ '' ('' @ i
            @ ''). Claim check requires an uploaded and indexed PDF. ''
            @ ''Currently only Tata AIG policies have embedded documents '' @ em_dash
            @ '' please select a Tata AIG policy or upload this policy'' @ [CHR 0x27]
            @ ''s PDF first.''"
    by (simp add: no_document_message_def fmt_def)
qed

theorem catalog_policy_without_document_witness:
  "run_claim_check demo ''c2'' ''cataract'' ''surgery'' =
     (Inr [(''error'', VStr (''No embedded policy document found for Star Comprehensive ''
        @ ''(Star Health). Claim check requires an uploaded and indexed PDF. ''
        @ ''Currently only Tata AIG policies have embedded documents '' @ em_dash
        @ '' please select a Tata AIG policy or upload this policy'' @ [CHR 0x27]
        @ ''s PDF first.''))],
      [(GetCatalogPolicy ''c2'', Policy (Some (demo_catalog ! 0))),
       (FindUploadedForInsurer (VStr ''Star Health''), Policy None)])"
proof -
  have cp: "get_catalog_policy demo ''c2'' = Inr (Some (demo_catalog ! 0))"
    by (simp add: demo_def demo_catalog_def dget_def)
  have f: "found (Some (demo_catalog ! 0))"
    by (simp add: demo_catalog_def)
  have i: "catalog_insurer (Some (demo_catalog ! 0)) = VStr ''Star Health''"
    by (simp add: catalog_insurer_def demo_catalog_def dget_default_def)
  have n: "dget (dict_of (Some (demo_catalog ! 0))) ''name'' = VStr ''Star Comprehensive''"
    by (simp add: demo_catalog_def dget_def)
  have i': "dget (dict_of (Some (demo_catalog ! 0))) ''insurer'' = VStr ''Star Health''"
    by (simp add: demo_catalog_def dget_def)
  have m: "find_uploaded_for_insurer demo (catalog_insurer (Some (demo_catalog ! 0))) = Inr None"
    by (simp add: i demo_def)
  have nf: "\<not> found None" by simp
  from catalog_policy_without_document [OF cp f m nf, of "''cataract''" "''surgery''"] n i' i
  show ?thesis by simp
qed

text \<open>
  C3. The no-evidence guard. Whenever the fusion call of a run returns the empty list,
  the run returns the dictionary that holds only the error message naming the condition,
  and the analysis service is not called in that run. In particular this is so when the
  four retrieval calls return empty lists and fusion of empty inputs is empty. The
  analysis service is only ever called with a prompt whose context block is built from a
  non-empty fused list and is itself non-empty.
\<close>

theorem no_evidence_guard:
  "((RrfFusion a b k, Chunks []) \<in> set (snd (run_claim_check sv policy_id condition treatment_type))
      \<longrightarrow>
      fst (run_claim_check sv policy_id condition treatment_type) =
        Inr [(''error'', VStr (''No relevant policy clause found for '' @ [CHR 0x27] @ condition
          @ [CHR 0x27]
          @ ''. The policy document may not contain information about this condition, ''
          @ ''or the document may not be indexed correctly.''))] \<and>
      (\<forall>e\<in>set (snd (run_claim_check sv policy_id condition treatment_type)).
         \<not> is_chat_json (fst e)))
   \<and>
   ((SemanticSearch qe sid 6, Chunks [])
        \<in> set (snd (run_claim_check sv policy_id condition treatment_type)) \<and>
    (SemanticSearch ce sid 4, Chunks [])
        \<in> set (snd (run_claim_check sv policy_id condition treatment_type)) \<and>
    (SectionSearch qe sid CLAIM_SECTIONS 4, Chunks [])
        \<in> set (snd (run_claim_check sv policy_id condition treatment_type)) \<and>
    (KeywordSearch condition sid 10, Chunks [])
        \<in> set (snd (run_claim_check sv policy_id condition treatment_type)) \<and>
    rrf_fusion sv [] [] 10 = Inr []
      \<longrightarrow>
      fst (run_claim_check sv policy_id condition treatment_type) =
        Inr [(''error'', VStr (no_evidence_message condition))])
   \<and>
   ((ChatJson prompt, r) \<in> set (snd (run_claim_check sv policy_id condition treatment_type))
      \<longrightarrow>
      (\<exists>sem kw fused ctx.
         (RrfFusion sem kw 10, Chunks fused)
            \<in> set (snd (run_claim_check sv policy_id condition treatment_type)) \<and>
         fused \<noteq> [] \<and> build_context_block sv fused = Inr ctx \<and> ctx \<noteq> [] \<and>
         prompt = user_prompt_of ctx condition treatment_type))"
proof (intro conjI impI)
  assume ev: "(RrfFusion a b k, Chunks [])
      \<in> set (snd (run_claim_check sv policy_id condition treatment_type))"
  from run_no_evidence(1) [OF ev]
  show "fst (run_claim_check sv policy_id condition treatment_type) =
        Inr [(''error'', VStr (''No relevant policy clause found for '' @ [CHR 0x27] @ condition
          @ [CHR 0x27]
          @ ''. The policy document may not contain information about this condition, ''
          @ ''or the document may not be indexed correctly.''))]"
    by (simp add: no_evidence_message_def)
  from run_no_evidence(2) [OF ev]
  show "\<forall>e\<in>set (snd (run_claim_check sv policy_id condition treatment_type)).
         \<not> is_chat_json (fst e)" .
next
  assume h: "(SemanticSearch qe sid 6, Chunks [])
        \<in> set (snd (run_claim_check sv policy_id condition treatment_type)) \<and>
    (SemanticSearch ce sid 4, Chunks [])
        \<in> set (snd (run_claim_check sv policy_id condition treatment_type)) \<and>
    (SectionSearch qe sid CLAIM_SECTIONS 4, Chunks [])
        \<in> set (snd (run_claim_check sv policy_id condition treatment_type)) \<and>
    (KeywordSearch condition sid 10, Chunks [])
        \<in> set (snd (run_claim_check sv policy_id condition treatment_type)) \<and>
    rrf_fusion sv [] [] 10 = Inr []"
  then have "(RrfFusion [] [] 10, Chunks [])
      \<in> set (snd (run_claim_check sv policy_id condition treatment_type))"
    by (elim conjE) (rule run_all_searches_empty)
  then show "fst (run_claim_check sv policy_id condition treatment_type) =
        Inr [(''error'', VStr (no_evidence_message condition))]"
    by (rule run_no_evidence(1))
next
  assume "(ChatJson prompt, r)
      \<in> set (snd (run_claim_check sv policy_id condition treatment_type))"
  then show "\<exists>sem kw fused ctx.
         (RrfFusion sem kw 10, Chunks fused)
            \<in> set (snd (run_claim_check sv policy_id condition treatment_type)) \<and>
         fused \<noteq> [] \<and> build_context_block sv fused = Inr ctx \<and> ctx \<noteq> [] \<and>
         prompt = user_prompt_of ctx condition treatment_type"
    by (rule run_chat_event)
qed

theorem no_evidence_guard_witness:
  "(RrfFusion [] [] 10, Chunks [])
     \<in> set (snd (run_claim_check demo ''u2'' ''cataract'' ''surgery'')) \<and>
   (KeywordSearch ''cataract'' (VStr ''u2'') 10, Chunks [])
     \<in> set (snd (run_claim_check demo ''u2'' ''cataract'' ''surgery'')) \<and>
   rrf_fusion demo [] [] 10 = Inr [] \<and>
   fst (run_claim_check demo ''u2'' ''cataract'' ''surgery'') =
     Inr [(''error'', VStr (no_evidence_message ''cataract''))] \<and>
   list_all (\<lambda>e. \<not> is_chat_json (fst e))
     (snd (run_claim_check demo ''u2'' ''cataract'' ''surgery'')) \<and>
   (\<exists>e\<in>set (snd (run_claim_check demo ''u1'' ''cataract'' ''surgery'')). is_chat_json (fst e)) \<and>
   (\<exists>sem kw fused.
      (RrfFusion sem kw 10, Chunks fused)
         \<in> set (snd (run_claim_check demo ''u1'' ''cataract'' ''surgery'')) \<and>
      fused \<noteq> [])"
proof -
  have f: "(RrfFusion [] [] 10, Chunks [])
     \<in> set (snd (run_claim_check demo ''u2'' ''cataract'' ''surgery''))"
    by code_simp
  have s: "(SemanticSearch ''cataract surgery'' (VStr ''u2'') 6, Chunks [])
        \<in> set (snd (run_claim_check demo ''u2'' ''cataract'' ''surgery'')) \<and>
    (SemanticSearch PROBE_TEXT (VStr ''u2'') 4, Chunks [])
        \<in> set (snd (run_claim_check demo ''u2'' ''cataract'' ''surgery'')) \<and>
    (SectionSearch ''cataract surgery'' (VStr ''u2'') CLAIM_SECTIONS 4, Chunks [])
        \<in> set (snd (run_claim_check demo ''u2'' ''cataract'' ''surgery'')) \<and>
    (KeywordSearch ''cataract'' (VStr ''u2'') 10, Chunks [])
        \<in> set (snd (run_claim_check demo ''u2'' ''cataract'' ''surgery'')) \<and>
    rrf_fusion demo [] [] 10 = Inr []"
    by code_simp
  have c: "\<exists>e\<in>set (snd (run_claim_check demo ''u1'' ''cataract'' ''surgery'')).
      is_chat_json (fst e)"
    by code_simp
  then obtain p r where
    ev: "(ChatJson p, r) \<in> set (snd (run_claim_check demo ''u1'' ''cataract'' ''surgery''))"
    by (metis is_chat_json.elims(2) prod.collapse)
  note g2 = no_evidence_guard
    [of "[]" "[]" 10 demo "''u2''" "''cataract''" "''surgery''" "''cataract surgery''"
        "VStr ''u2''" PROBE_TEXT p r]
  note g1 = no_evidence_guard
    [of "[]" "[]" 10 demo "''u1''" "''cataract''" "''surgery''" "''cataract surgery''"
        "VStr ''u1''" PROBE_TEXT p r]
  from g2 f s have
    "fst (run_claim_check demo ''u2'' ''cataract'' ''surgery'') =
       Inr [(''error'', VStr (no_evidence_message ''cataract''))]"
    "list_all (\<lambda>e. \<not> is_chat_json (fst e))
       (snd (run_claim_check demo ''u2'' ''cataract'' ''surgery''))"
    by (simp_all add: list_all_iff no_evidence_message_def)
  moreover from g1 ev have "\<exists>sem kw fused.
      (RrfFusion sem kw 10, Chunks fused)
         \<in> set (snd (run_claim_check demo ''u1'' ''cataract'' ''surgery'')) \<and>
      fused \<noteq> []"
    by blast
  ultimately show ?thesis using f s c by simp
qed

text \<open>
  C4. A policy reference that is not a catalog policy and is an uploaded policy: every
  retrieval call of the run (the two semantic searches, the section search and the
  keyword search) searches the document whose identifier is the reference itself, and
  \<open>find_uploaded_for_insurer\<close> is never asked for another document, whatever the
  catalog holds.
\<close>

theorem uploaded_policy_searches_own_document:
  assumes "get_catalog_policy sv policy_id = Inr cp" "\<not> found cp"
    "get_policy_by_id sv policy_id = Inr u" "found u"
  shows "(\<forall>e\<in>set (snd (run_claim_check sv policy_id condition treatment_type)).
            (\<forall>d. searched_document (fst e) = Some d \<longrightarrow> d = VStr policy_id) \<and>
            (\<forall>i. fst e \<noteq> FindUploadedForInsurer i))
       \<and> (\<forall>policy name sid.
            fst (resolve_policy sv policy_id) = Inr (policy, name, sid) \<longrightarrow> sid = VStr policy_id)"
proof (intro conjI ballI allI impI)
  fix e d
  assume e: "e \<in> set (snd (run_claim_check sv policy_id condition treatment_type))"
    and d: "searched_document (fst e) = Some d"
  from run_stage2 [OF e searched_document_stage [OF d]] obtain policy name sid where
    res: "fst (resolve_policy sv policy_id) = Inr (policy, name, sid)" and
    ev: "e \<in> set (snd (retrieve_evidence sv sid condition treatment_type))"
    by blast
  from resolve_uploaded [OF assms(1,2) res] have "sid = VStr policy_id" by blast
  with retrieve_search_event [OF ev d] show "d = VStr policy_id" by simp
next
  fix e i
  assume e: "e \<in> set (snd (run_claim_check sv policy_id condition treatment_type))"
  show "fst e \<noteq> FindUploadedForInsurer i"
  proof
    assume f: "fst e = FindUploadedForInsurer i"
    then have "stage_of (fst e) = 1" by simp
    from run_stage1 [OF e this] f
    have "(FindUploadedForInsurer i, snd e) \<in> set (snd (resolve_policy sv policy_id))"
      by (metis prod.collapse)
    from resolve_find_call [OF this] assms(1,2) show False by auto
  qed
next
  fix policy name sid
  assume "fst (resolve_policy sv policy_id) = Inr (policy, name, sid)"
  from resolve_uploaded [OF assms(1,2) this] show "sid = VStr policy_id" by blast
qed

theorem uploaded_policy_searches_own_document_witness:
  "get_catalog_policy demo ''u1'' = Inr None \<and> \<not> found None \<and>
   get_policy_by_id demo ''u1'' = Inr (Some demo_upload) \<and> found (Some demo_upload) \<and>
   find_uploaded_for_insurer demo (VStr ''Tata AIG'') = Inr (Some demo_upload) \<and>
   map fst (filter (\<lambda>e. searched_document (fst e) \<noteq> None)
       (snd (run_claim_check demo ''u1'' ''cataract'' ''surgery''))) =
     [SemanticSearch ''cataract surgery'' (VStr ''u1'') 6,
      SemanticSearch PROBE_TEXT (VStr ''u1'') 4,
      SectionSearch ''cataract surgery'' (VStr ''u1'') CLAIM_SECTIONS 4,
      KeywordSearch ''cataract'' (VStr ''u1'') 10] \<and>
   list_all (\<lambda>e. searched_document (fst e) = None \<or> searched_document (fst e) = Some (VStr ''u1''))
     (snd (run_claim_check demo ''u1'' ''cataract'' ''surgery''))"
proof -
  have h: "get_catalog_policy demo ''u1'' = Inr None" "\<not> found None"
    "get_policy_by_id demo ''u1'' = Inr (Some demo_upload)" "found (Some demo_upload)"
    by (simp_all add: demo_def demo_catalog_def demo_upload_def dget_def)
  have t: "find_uploaded_for_insurer demo (VStr ''Tata AIG'') = Inr (Some demo_upload)"
    by (simp add: demo_def)
  have s: "map fst (filter (\<lambda>e. searched_document (fst e) \<noteq> None)
       (snd (run_claim_check demo ''u1'' ''cataract'' ''surgery''))) =
     [SemanticSearch ''cataract surgery'' (VStr ''u1'') 6,
      SemanticSearch PROBE_TEXT (VStr ''u1'') 4,
      SectionSearch ''cataract surgery'' (VStr ''u1'') CLAIM_SECTIONS 4,
      KeywordSearch ''cataract'' (VStr ''u1'') 10]"
    by code_simp
  from uploaded_policy_searches_own_document [OF h, of "''cataract''" "''surgery''"]
  have "list_all (\<lambda>e. searched_document (fst e) = None \<or>
          searched_document (fst e) = Some (VStr ''u1''))
     (snd (run_claim_check demo ''u1'' ''cataract'' ''surgery''))"
    unfolding list_all_iff by (metis option.exhaust)
  with h t s show ?thesis by simp
qed

text \<open>
  C8. If the call that embeds the query text \<open>condition treatment_type\<close> fails, the run
  returns the error dictionary at once: the failed call is the last call of the run and
  the only one after the policy lookups, so nothing is retried and nothing retrieved. If
  that call succeeds and the embedding of the probe text fails, the run returns what it
  would return had the probe's embedding been the query vector, and every semantic
  search of the run, the coverage search with top_k 4 among them, uses the query vector.
\<close>

theorem embedding_failure_handling:
  "((EmbedText (condition @ '' '' @ treatment_type), Failed m)
       \<in> set (snd (run_claim_check sv policy_id condition treatment_type))
     \<longrightarrow>
     run_claim_check sv policy_id condition treatment_type =
       (Inr [(''error'', VStr (''Embedding failed: '' @ m))],
        snd (resolve_policy sv policy_id)
        @ [(EmbedText (condition @ '' '' @ treatment_type), Failed m)]) \<and>
     (\<forall>e\<in>set (snd (resolve_policy sv policy_id)). stage_of (fst e) = 1))
   \<and>
   ((EmbedText (condition @ '' '' @ treatment_type), Vector qe)
       \<in> set (snd (run_claim_check sv policy_id condition treatment_type)) \<and>
    (EmbedText PROBE_TEXT, Failed m')
       \<in> set (snd (run_claim_check sv policy_id condition treatment_type))
     \<longrightarrow>
     fst (run_claim_check sv policy_id condition treatment_type) =
       fst (run_claim_check (sv\<lparr>embed_text := (embed_text sv)(PROBE_TEXT := Inr qe)\<rparr>)
              policy_id condition treatment_type) \<and>
     (\<forall>e\<in>set (snd (run_claim_check sv policy_id condition treatment_type)).
        \<forall>v d k. fst e = SemanticSearch v d k \<longrightarrow> v = qe) \<and>
     (\<exists>sid. (SemanticSearch qe sid 6, reply_of Chunks (semantic_search sv qe sid 6))
               \<in> set (snd (run_claim_check sv policy_id condition treatment_type)) \<and>
            (\<forall>sem. semantic_search sv qe sid 6 = Inr sem \<longrightarrow>
               (SemanticSearch qe sid 4, reply_of Chunks (semantic_search sv qe sid 4))
                 \<in> set (snd (run_claim_check sv policy_id condition treatment_type)))))"
proof (intro conjI impI)
  assume ev: "(EmbedText (condition @ '' '' @ treatment_type), Failed m)
       \<in> set (snd (run_claim_check sv policy_id condition treatment_type))"
  show "run_claim_check sv policy_id condition treatment_type =
       (Inr [(''error'', VStr (''Embedding failed: '' @ m))],
        snd (resolve_policy sv policy_id)
        @ [(EmbedText (condition @ '' '' @ treatment_type), Failed m)])"
    by (rule run_primary_embedding_failed [OF ev])
  show "\<forall>e\<in>set (snd (resolve_policy sv policy_id)). stage_of (fst e) = 1"
    using resolve_stage by blast
next
  let ?q = "condition @ '' '' @ treatment_type"
  let ?tr = "snd (run_claim_check sv policy_id condition treatment_type)"
  assume "(EmbedText ?q, Vector qe) \<in> set ?tr \<and> (EmbedText PROBE_TEXT, Failed m') \<in> set ?tr"
  then have e1: "(EmbedText ?q, Vector qe) \<in> set ?tr"
    and e2: "(EmbedText PROBE_TEXT, Failed m') \<in> set ?tr" by simp_all
  from run_embed_events [OF e1] run_embed_events [OF e2]
  have q: "embed_text sv ?q = Inr qe"
    by (auto simp: reply_simps)
  with run_embed_events [OF e2] have p: "embed_text sv PROBE_TEXT = Inl m'"
    by (auto simp: reply_simps)
  have cv: "coverage_vector sv qe = qe"
    using p by (simp add: coverage_vector_def)
  show "fst (run_claim_check sv policy_id condition treatment_type) =
       fst (run_claim_check (sv\<lparr>embed_text := (embed_text sv)(PROBE_TEXT := Inr qe)\<rparr>)
              policy_id condition treatment_type)"
    by (rule run_probe_fallback [OF q p, symmetric])
  show "\<forall>e\<in>set ?tr. \<forall>v d k. fst e = SemanticSearch v d k \<longrightarrow> v = qe"
  proof (intro ballI allI impI)
    fix e v d k
    assume e: "e \<in> set ?tr" and f: "fst e = SemanticSearch v d k"
    then have "stage_of (fst e) = 2" by simp
    from run_stage2 [OF e this] obtain sid where
      "e \<in> set (snd (retrieve_evidence sv sid condition treatment_type))" by auto
    with f have "(SemanticSearch v d k, snd e)
        \<in> set (snd (retrieve_evidence sv sid condition treatment_type))"
      by (metis prod.collapse)
    from retrieve_semantic_event [OF this] q cv show "v = qe" by auto
  qed
  have "stage_of (fst (EmbedText ?q, Vector qe)) = 2" by simp
  from run_stage2 [OF e1 this] obtain policy name sid where
    res: "fst (resolve_policy sv policy_id) = Inr (policy, name, sid)" by auto
  have in_run: "e \<in> set ?tr"
    if "e \<in> set (snd (retrieve_evidence sv sid condition treatment_type))" for e
    using that res unfolding run_mem by blast
  show "\<exists>sid. (SemanticSearch qe sid 6, reply_of Chunks (semantic_search sv qe sid 6)) \<in> set ?tr \<and>
            (\<forall>sem. semantic_search sv qe sid 6 = Inr sem \<longrightarrow>
               (SemanticSearch qe sid 4, reply_of Chunks (semantic_search sv qe sid 4))
                 \<in> set ?tr)"
    using retrieve_first_searches [OF q, of sid] in_run cv by auto
qed

theorem embedding_failure_handling_witness:
  "(EmbedText (''vertigo'' @ '' '' @ ''therapy''), Failed ''model offline'')
       \<in> set (snd (run_claim_check demo ''u1'' ''vertigo'' ''therapy'')) \<and>
   run_claim_check demo ''u1'' ''vertigo'' ''therapy'' =
       (Inr [(''error'', VStr ''Embedding failed: model offline'')],
        snd (resolve_policy demo ''u1'')
        @ [(EmbedText ''vertigo therapy'', Failed ''model offline'')]) \<and>
   (EmbedText (''vertigo'' @ '' '' @ ''therapy''), Vector ''vertigo therapy'')
       \<in> set (snd (run_claim_check demo_probe_down ''u1'' ''vertigo'' ''therapy'')) \<and>
   (EmbedText PROBE_TEXT, Failed ''model offline'')
       \<in> set (snd (run_claim_check demo_probe_down ''u1'' ''vertigo'' ''therapy'')) \<and>
   fst (run_claim_check demo_probe_down ''u1'' ''vertigo'' ''therapy'') =
     fst (run_claim_check
            (demo_probe_down\<lparr>embed_text :=
               (embed_text demo_probe_down)(PROBE_TEXT := Inr ''vertigo therapy'')\<rparr>)
            ''u1'' ''vertigo'' ''therapy'') \<and>
   (\<exists>sid. (SemanticSearch ''vertigo therapy'' sid 4,
             reply_of Chunks (semantic_search demo_probe_down ''vertigo therapy'' sid 4))
               \<in> set (snd (run_claim_check demo_probe_down ''u1'' ''vertigo'' ''therapy'')))"
proof -
  have a: "(EmbedText (''vertigo'' @ '' '' @ ''therapy''), Failed ''model offline'')
       \<in> set (snd (run_claim_check demo ''u1'' ''vertigo'' ''therapy''))"
    by code_simp
  have b: "(EmbedText (''vertigo'' @ '' '' @ ''therapy''), Vector ''vertigo therapy'')
       \<in> set (snd (run_claim_check demo_probe_down ''u1'' ''vertigo'' ''therapy'')) \<and>
   (EmbedText PROBE_TEXT, Failed ''model offline'')
       \<in> set (snd (run_claim_check demo_probe_down ''u1'' ''vertigo'' ''therapy''))"
    by code_simp
  have c: "\<exists>sem. semantic_search demo_probe_down ''vertigo therapy'' sid 6 = Inr sem" for sid
    by (simp add: demo_probe_down_def demo_def)
  from embedding_failure_handling
    [of "''vertigo''" "''therapy''" "''model offline''" demo "''u1''" "''vertigo therapy''"
       "''model offline''"] a
  have 1: "run_claim_check demo ''u1'' ''vertigo'' ''therapy'' =
       (Inr [(''error'', VStr ''Embedding failed: model offline'')],
        snd (resolve_policy demo ''u1'')
        @ [(EmbedText ''vertigo therapy'', Failed ''model offline'')])"
    by simp
  from embedding_failure_handling
    [of "''vertigo''" "''therapy''" "''model offline''" demo_probe_down "''u1''"
       "''vertigo therapy''" "''model offline''"] b
  have 2: "fst (run_claim_check demo_probe_down ''u1'' ''vertigo'' ''therapy'') =
     fst (run_claim_check
            (demo_probe_down\<lparr>embed_text :=
               (embed_text demo_probe_down)(PROBE_TEXT := Inr ''vertigo therapy'')\<rparr>)
            ''u1'' ''vertigo'' ''therapy'')"
    and 3: "\<exists>sid. (SemanticSearch ''vertigo therapy'' sid 4,
             reply_of Chunks (semantic_search demo_probe_down ''vertigo therapy'' sid 4))
               \<in> set (snd (run_claim_check demo_probe_down ''u1'' ''vertigo'' ''therapy''))"
    using c by blast+
  from a b 1 2 3 show ?thesis by blast
qed

text \<open>
  C5, as stated: a scoring field is copied exactly when the uploaded value is absent and
  the catalog insurer name is a case-insensitive substring match, in either direction, of
  the uploaded insurer name. The loop is guarded by \<open>if ins and ...\<close>: an uploaded
  record whose insurer name is empty is never enriched, although the empty name is a
  substring of every catalog insurer name. Here the uploaded record has the empty name
  and no co-pay, the first catalog record has co-pay 20, and the metadata is returned
  unchanged.
\<close>

theorem empty_uploaded_insurer_is_not_enriched:
  "get_catalog_policy demo_blank_insurer ''u3'' = Inr None \<and>
   get_policy_by_id demo_blank_insurer ''u3'' =
     Inr (Some [(''id'', VStr ''u3''), (''insurer'', VStr [])]) \<and>
   list_catalog_policies demo_blank_insurer = Inr demo_catalog \<and>
   dget (demo_catalog ! 0) ''insurer'' = VStr ''Star Health'' \<and>
   sublist (insurer_lower demo_blank_insurer [(''id'', VStr ''u3''), (''insurer'', VStr [])])
     (insurer_lower demo_blank_insurer (demo_catalog ! 0)) \<and>
   dget [(''id'', VStr ''u3''), (''insurer'', VStr [])] ''co_pay_percent'' = VNone \<and>
   dget (demo_catalog ! 0) ''co_pay_percent'' = VInt 20 \<and>
   fst (resolve_policy demo_blank_insurer ''u3'') =
     Inr ([(''id'', VStr ''u3''), (''insurer'', VStr [])], VStr ''Unknown Policy'', VStr ''u3'')"
  by code_simp

text \<open>
  C5, amended. On the uploaded-policy path, with insurer fields that are text or absent:
  the metadata returned by step 1 agrees with the uploaded record on every field, except
  that each of the six scoring fields whose uploaded value is absent (\<open>None\<close> or missing)
  takes the value of the first catalog record, in list order, that matches; a catalog
  record matches when the uploaded insurer name is non-empty and one lower-case name is
  a substring of the other. Later catalog records are not consulted, and a field the
  uploaded record has is never overwritten. The lower-case names are those of Python's
  \<open>str.lower\<close>, whatever it does to the letters of the names.
\<close>

theorem enrichment_from_first_matching_catalog_record:
  assumes "get_catalog_policy sv policy_id = Inr cp" "\<not> found cp"
    "get_policy_by_id sv policy_id = Inr u" "found u"
    "list_catalog_policies sv = Inr catalog"
    "text_or_absent (dict_of u) ''insurer''"
    "list_all (\<lambda>c. text_or_absent c ''insurer'') catalog"
  shows "\<exists>policy name.
      fst (resolve_policy sv policy_id) = Inr (policy, name, VStr policy_id) \<and>
      (\<forall>field. dget policy field =
         (if field \<in> set SCORING_FIELDS \<and> dget (dict_of u) field = VNone
          then (case find (insurer_match sv (insurer_lower sv (dict_of u))) catalog of
                  None \<Rightarrow> VNone
                | Some c \<Rightarrow> dget c field)
          else dget (dict_of u) field))"
proof -
  let ?ins = "insurer_lower sv (dict_of u)"
  let ?policy = "case find (insurer_match sv ?ins) catalog of
            None \<Rightarrow> dict_of u
          | Some c \<Rightarrow> merge_fields (dict_of u) c SCORING_FIELDS"
  have "resolve_policy sv policy_id =
    (Inr (?policy, py_or (dget (dict_of u) ''user_label'') (VStr ''Unknown Policy''),
          VStr policy_id),
     [(GetCatalogPolicy policy_id, Policy cp), (GetPolicyById policy_id, Policy u),
      (ListCatalogPolicies, Policies catalog)])"
    by (rule resolve_uploaded_eq [OF assms(1-5) lower_method_insurer [OF assms(6)]
          enrich_find [OF assms(7)]])
  moreover have "dget ?policy field =
         (if field \<in> set SCORING_FIELDS \<and> dget (dict_of u) field = VNone
          then (case find (insurer_match sv ?ins) catalog of
                  None \<Rightarrow> VNone
                | Some c \<Rightarrow> dget c field)
          else dget (dict_of u) field)" for field
    by (simp add: merge_fields_get split: option.splits)
  ultimately show ?thesis by simp
qed

theorem enrichment_from_first_matching_catalog_record_witness:
  "get_catalog_policy demo ''u1'' = Inr None \<and> \<not> found None \<and>
   get_policy_by_id demo ''u1'' = Inr (Some demo_upload) \<and> found (Some demo_upload) \<and>
   list_catalog_policies demo = Inr demo_catalog \<and>
   text_or_absent (dict_of (Some demo_upload)) ''insurer'' \<and>
   list_all (\<lambda>c. text_or_absent c ''insurer'') demo_catalog \<and>
   find (insurer_match demo (insurer_lower demo (dict_of (Some demo_upload)))) demo_catalog
     = Some (demo_catalog ! 1) \<and>
   (\<exists>policy name.
      fst (resolve_policy demo ''u1'') = Inr (policy, name, VStr ''u1'') \<and>
      dget policy ''waiting_period_preexisting_years'' = VInt 2 \<and>
      dget policy ''co_pay_percent'' = VInt 10 \<and>
      dget policy ''room_rent_limit'' = VStr ''No limit'' \<and>
      dget policy ''covers_opd'' = VNone \<and>
      dget policy ''insurer'' = VStr ''Tata AIG'') \<and>
   get_catalog_policy demo_accent ''u1'' = Inr None \<and>
   get_policy_by_id demo_accent ''u1'' = Inr (Some accent_upload) \<and>
   found (Some accent_upload) \<and>
   list_catalog_policies demo_accent = Inr accent_catalog \<and>
   text_or_absent (dict_of (Some accent_upload)) ''insurer'' \<and>
   list_all (\<lambda>c. text_or_absent c ''insurer'') accent_catalog \<and>
   dget accent_upload ''insurer'' = VStr CREDIT_SANTE \<and>
   dget (accent_catalog ! 0) ''insurer'' = VStr Credit_Sante \<and>
   find (insurer_match demo_accent (insurer_lower demo_accent (dict_of (Some accent_upload))))
     accent_catalog = Some (accent_catalog ! 0) \<and>
   (\<exists>policy name.
      fst (resolve_policy demo_accent ''u1'') = Inr (policy, name, VStr ''u1'') \<and>
      dget policy ''co_pay_percent'' = VInt 15 \<and>
      dget policy ''insurer'' = VStr CREDIT_SANTE)"
proof -
  have h: "get_catalog_policy demo ''u1'' = Inr None" "\<not> found None"
    "get_policy_by_id demo ''u1'' = Inr (Some demo_upload)" "found (Some demo_upload)"
    "list_catalog_policies demo = Inr demo_catalog"
    "text_or_absent (dict_of (Some demo_upload)) ''insurer''"
    "list_all (\<lambda>c. text_or_absent c ''insurer'') demo_catalog"
    by (simp_all add: demo_def demo_catalog_def demo_upload_def dget_def text_or_absent_def)
  have m: "find (insurer_match demo (insurer_lower demo (dict_of (Some demo_upload)))) demo_catalog
     = Some (demo_catalog ! 1)"
    by code_simp
  have v: "dget (dict_of (Some demo_upload)) ''waiting_period_preexisting_years'' = VNone"
    "dget (dict_of (Some demo_upload)) ''co_pay_percent'' = VNone"
    "dget (dict_of (Some demo_upload)) ''room_rent_limit'' = VStr ''No limit''"
    "dget (dict_of (Some demo_upload)) ''covers_opd'' = VNone"
    "dget (dict_of (Some demo_upload)) ''insurer'' = VStr ''Tata AIG''"
    "dget (demo_catalog ! 1) ''waiting_period_preexisting_years'' = VInt 2"
    "dget (demo_catalog ! 1) ''co_pay_percent'' = VInt 10"
    "dget (demo_catalog ! 1) ''covers_opd'' = VNone"
    by (simp_all add: demo_upload_def demo_catalog_def dget_def)
  from enrichment_from_first_matching_catalog_record [OF h] obtain policy name where
    r: "fst (resolve_policy demo ''u1'') = Inr (policy, name, VStr ''u1'')" and
    f: "\<And>field. dget policy field =
         (if field \<in> set SCORING_FIELDS \<and> dget (dict_of (Some demo_upload)) field = VNone
          then (case find (insurer_match demo (insurer_lower demo (dict_of (Some demo_upload)))) demo_catalog of
                  None \<Rightarrow> VNone
                | Some c \<Rightarrow> dget c field)
          else dget (dict_of (Some demo_upload)) field)"
    by blast
  have "dget policy ''waiting_period_preexisting_years'' = VInt 2"
    "dget policy ''co_pay_percent'' = VInt 10"
    "dget policy ''room_rent_limit'' = VStr ''No limit''"
    "dget policy ''covers_opd'' = VNone"
    "dget policy ''insurer'' = VStr ''Tata AIG''"
    using m v by (simp_all add: f SCORING_FIELDS_def)
  with r have first: "\<exists>policy name.
      fst (resolve_policy demo ''u1'') = Inr (policy, name, VStr ''u1'') \<and>
      dget policy ''waiting_period_preexisting_years'' = VInt 2 \<and>
      dget policy ''co_pay_percent'' = VInt 10 \<and>
      dget policy ''room_rent_limit'' = VStr ''No limit'' \<and>
      dget policy ''covers_opd'' = VNone \<and>
      dget policy ''insurer'' = VStr ''Tata AIG''"
    by blast
  have g: "get_catalog_policy demo_accent ''u1'' = Inr None" "\<not> found None"
    "get_policy_by_id demo_accent ''u1'' = Inr (Some accent_upload)"
    "found (Some accent_upload)"
    "list_catalog_policies demo_accent = Inr accent_catalog"
    "text_or_absent (dict_of (Some accent_upload)) ''insurer''"
    "list_all (\<lambda>c. text_or_absent c ''insurer'') accent_catalog"
    by (simp_all add: demo_accent_def demo_def demo_catalog_def accent_upload_def
        accent_catalog_def dget_def text_or_absent_def)
  have n: "find (insurer_match demo_accent (insurer_lower demo_accent (dict_of (Some accent_upload))))
     accent_catalog = Some (accent_catalog ! 0)"
    by code_simp
  have w: "dget (dict_of (Some accent_upload)) ''co_pay_percent'' = VNone"
    "dget (dict_of (Some accent_upload)) ''insurer'' = VStr CREDIT_SANTE"
    "dget accent_upload ''insurer'' = VStr CREDIT_SANTE"
    "dget (accent_catalog ! 0) ''insurer'' = VStr Credit_Sante"
    "dget (accent_catalog ! 0) ''co_pay_percent'' = VInt 15"
    by (simp_all add: accent_upload_def accent_catalog_def dget_def)
  from enrichment_from_first_matching_catalog_record [OF g] obtain policy2 name2 where
    r2: "fst (resolve_policy demo_accent ''u1'') = Inr (policy2, name2, VStr ''u1'')" and
    f2: "\<And>field. dget policy2 field =
         (if field \<in> set SCORING_FIELDS \<and> dget (dict_of (Some accent_upload)) field = VNone
          then (case find (insurer_match demo_accent
                             (insurer_lower demo_accent (dict_of (Some accent_upload))))
                       accent_catalog of
                  None \<Rightarrow> VNone
                | Some c \<Rightarrow> dget c field)
          else dget (dict_of (Some accent_upload)) field)"
    by blast
  have "dget policy2 ''co_pay_percent'' = VInt 15"
    "dget policy2 ''insurer'' = VStr CREDIT_SANTE"
    using n w by (simp_all add: f2 SCORING_FIELDS_def)
  with r2 have second: "\<exists>policy name.
      fst (resolve_policy demo_accent ''u1'') = Inr (policy, name, VStr ''u1'') \<and>
      dget policy ''co_pay_percent'' = VInt 15 \<and>
      dget policy ''insurer'' = VStr CREDIT_SANTE"
    by blast
  from h m first g n w(3,4) second show ?thesis by (intro conjI)
qed

text \<open>
  C7, as stated: every run returns an error result or a full success result, and no
  exception ever escapes to the caller. Only the query embedding is wrapped in
  \<open>try\<close>: when the analysis service raises, the exception leaves \<open>run_claim_check\<close>.
  Here the run passes the four error conditions and the call of the analysis service
  fails.
\<close>

theorem analysis_failure_reaches_caller:
  "fst (run_claim_check demo_llm_down ''u1'' ''cataract'' ''surgery'')
     = Inl (Raised ''service unavailable'') \<and>
   (\<exists>e\<in>set (snd (run_claim_check demo_llm_down ''u1'' ''cataract'' ''surgery'')).
      is_chat_json (fst e) \<and> snd e = Failed ''service unavailable'')"
  by code_simp

text \<open>
  C7, amended. Every dictionary that \<open>run_claim_check\<close> returns is either the
  error-only dictionary (one entry, a non-empty message) or a full success dictionary
  (all thirteen keys, \<open>error\<close> being \<open>None\<close>), never both. Each of the four conditions
  gives the error-only dictionary: the reference is in neither store, the catalog
  policy's insurer has no uploaded document, the query embedding fails, fusion returns
  nothing. A returned error dictionary always comes from one of the four. A failure of
  any collaborator call other than an embedding is not caught: its exception reaches the
  caller.
\<close>

theorem run_claim_check_outcomes:
  "(fst (run_claim_check sv policy_id condition treatment_type) = Inr d \<longrightarrow>
      (error_result d \<and> \<not> success_result d) \<or> (success_result d \<and> \<not> error_result d))
   \<and>
   ((GetPolicyById p, Policy u) \<in> set (snd (run_claim_check sv policy_id condition treatment_type))
      \<and> \<not> found u \<longrightarrow>
      fst (run_claim_check sv policy_id condition treatment_type) =
        Inr [(''error'', VStr ''Policy not found.'')])
   \<and>
   ((FindUploadedForInsurer i, Policy mt)
        \<in> set (snd (run_claim_check sv policy_id condition treatment_type))
      \<and> \<not> found mt \<longrightarrow>
      (\<exists>name. fst (run_claim_check sv policy_id condition treatment_type) =
         Inr [(''error'', VStr (no_document_message sv name i))]))
   \<and>
   ((EmbedText (condition @ '' '' @ treatment_type), Failed m)
        \<in> set (snd (run_claim_check sv policy_id condition treatment_type)) \<longrightarrow>
      fst (run_claim_check sv policy_id condition treatment_type) =
        Inr [(''error'', VStr (''Embedding failed: '' @ m))])
   \<and>
   ((RrfFusion a b k, Chunks []) \<in> set (snd (run_claim_check sv policy_id condition treatment_type))
      \<longrightarrow>
      fst (run_claim_check sv policy_id condition treatment_type) =
        Inr [(''error'', VStr (no_evidence_message condition))])
   \<and>
   (fst (run_claim_check sv policy_id condition treatment_type) = Inr d \<and> error_result d \<longrightarrow>
      (\<exists>u. (GetPolicyById policy_id, Policy u)
             \<in> set (snd (run_claim_check sv policy_id condition treatment_type)) \<and> \<not> found u) \<or>
      (\<exists>i mt. (FindUploadedForInsurer i, Policy mt)
             \<in> set (snd (run_claim_check sv policy_id condition treatment_type)) \<and> \<not> found mt) \<or>
      (\<exists>m. (EmbedText (condition @ '' '' @ treatment_type), Failed m)
             \<in> set (snd (run_claim_check sv policy_id condition treatment_type))) \<or>
      (\<exists>a b. (RrfFusion a b 10, Chunks [])
             \<in> set (snd (run_claim_check sv policy_id condition treatment_type))))
   \<and>
   ((cl, Failed m2) \<in> set (snd (run_claim_check sv policy_id condition treatment_type))
      \<and> (\<forall>q. cl \<noteq> EmbedText q) \<longrightarrow>
      fst (run_claim_check sv policy_id condition treatment_type) = Inl (Raised m2))"
proof (intro conjI impI)
  assume "fst (run_claim_check sv policy_id condition treatment_type) = Inr d"
  then show "(error_result d \<and> \<not> success_result d) \<or> (success_result d \<and> \<not> error_result d)"
    by (rule run_result_shape)
next
  assume "(GetPolicyById p, Policy u)
      \<in> set (snd (run_claim_check sv policy_id condition treatment_type)) \<and> \<not> found u"
  then show "fst (run_claim_check sv policy_id condition treatment_type) =
        Inr [(''error'', VStr ''Policy not found.'')]"
    using run_not_found by blast
next
  assume "(FindUploadedForInsurer i, Policy mt)
        \<in> set (snd (run_claim_check sv policy_id condition treatment_type)) \<and> \<not> found mt"
  then show "\<exists>name. fst (run_claim_check sv policy_id condition treatment_type) =
         Inr [(''error'', VStr (no_document_message sv name i))]"
    using run_no_document by blast
next
  assume "(EmbedText (condition @ '' '' @ treatment_type), Failed m)
        \<in> set (snd (run_claim_check sv policy_id condition treatment_type))"
  from run_primary_embedding_failed [OF this]
  show "fst (run_claim_check sv policy_id condition treatment_type) =
        Inr [(''error'', VStr (''Embedding failed: '' @ m))]"
    by simp
next
  assume "(RrfFusion a b k, Chunks [])
      \<in> set (snd (run_claim_check sv policy_id condition treatment_type))"
  then show "fst (run_claim_check sv policy_id condition treatment_type) =
        Inr [(''error'', VStr (no_evidence_message condition))]"
    by (rule run_no_evidence(1))
next
  assume "fst (run_claim_check sv policy_id condition treatment_type) = Inr d \<and> error_result d"
  then show "(\<exists>u. (GetPolicyById policy_id, Policy u)
             \<in> set (snd (run_claim_check sv policy_id condition treatment_type)) \<and> \<not> found u) \<or>
      (\<exists>i mt. (FindUploadedForInsurer i, Policy mt)
             \<in> set (snd (run_claim_check sv policy_id condition treatment_type)) \<and> \<not> found mt) \<or>
      (\<exists>m. (EmbedText (condition @ '' '' @ treatment_type), Failed m)
             \<in> set (snd (run_claim_check sv policy_id condition treatment_type))) \<or>
      (\<exists>a b. (RrfFusion a b 10, Chunks [])
             \<in> set (snd (run_claim_check sv policy_id condition treatment_type)))"
    using run_error_cause by blast
next
  assume "(cl, Failed m2) \<in> set (snd (run_claim_check sv policy_id condition treatment_type))
      \<and> (\<forall>q. cl \<noteq> EmbedText q)"
  then show "fst (run_claim_check sv policy_id condition treatment_type) = Inl (Raised m2)"
    using run_failed_call by blast
qed

theorem run_claim_check_outcomes_witness:
  "fst (run_claim_check demo ''u1'' ''cataract'' ''surgery'')
     = Inr (projr (fst (run_claim_check demo ''u1'' ''cataract'' ''surgery''))) \<and>
   success_result (projr (fst (run_claim_check demo ''u1'' ''cataract'' ''surgery''))) \<and>
   \<not> error_result (projr (fst (run_claim_check demo ''u1'' ''cataract'' ''surgery''))) \<and>
   (GetPolicyById ''zz'', Policy None)
     \<in> set (snd (run_claim_check demo ''zz'' ''cataract'' ''surgery'')) \<and>
   fst (run_claim_check demo ''zz'' ''cataract'' ''surgery'')
     = Inr [(''error'', VStr ''Policy not found.'')] \<and>
   (FindUploadedForInsurer (VStr ''Star Health''), Policy None)
     \<in> set (snd (run_claim_check demo ''c2'' ''cataract'' ''surgery'')) \<and>
   (\<exists>name. fst (run_claim_check demo ''c2'' ''cataract'' ''surgery'')
     = Inr [(''error'', VStr (no_document_message demo name (VStr ''Star Health'')))]) \<and>
   (EmbedText (''vertigo'' @ '' '' @ ''therapy''), Failed ''model offline'')
     \<in> set (snd (run_claim_check demo ''u1'' ''vertigo'' ''therapy'')) \<and>
   fst (run_claim_check demo ''u1'' ''vertigo'' ''therapy'')
     = Inr [(''error'', VStr (''Embedding failed: '' @ ''model offline''))] \<and>
   (RrfFusion [] [] 10, Chunks [])
     \<in> set (snd (run_claim_check demo ''u2'' ''cataract'' ''surgery'')) \<and>
   fst (run_claim_check demo ''u2'' ''cataract'' ''surgery'')
     = Inr [(''error'', VStr (no_evidence_message ''cataract''))] \<and>
   error_result [(''error'', VStr (no_evidence_message ''cataract''))] \<and>
   (\<exists>e\<in>set (snd (run_claim_check demo_llm_down ''u1'' ''cataract'' ''surgery'')).
      is_chat_json (fst e) \<and> snd e = Failed ''service unavailable'') \<and>
   fst (run_claim_check demo_llm_down ''u1'' ''cataract'' ''surgery'')
     = Inl (Raised ''service unavailable'')"
proof -
  have a: "fst (run_claim_check demo ''u1'' ''cataract'' ''surgery'')
     = Inr (projr (fst (run_claim_check demo ''u1'' ''cataract'' ''surgery'')))"
    and a': "success_result (projr (fst (run_claim_check demo ''u1'' ''cataract'' ''surgery'')))"
    by code_simp+
  have b: "(GetPolicyById ''zz'', Policy None)
     \<in> set (snd (run_claim_check demo ''zz'' ''cataract'' ''surgery''))"
    by code_simp
  have c: "(FindUploadedForInsurer (VStr ''Star Health''), Policy None)
     \<in> set (snd (run_claim_check demo ''c2'' ''cataract'' ''surgery''))"
    by code_simp
  have d: "(EmbedText (''vertigo'' @ '' '' @ ''therapy''), Failed ''model offline'')
     \<in> set (snd (run_claim_check demo ''u1'' ''vertigo'' ''therapy''))"
    by code_simp
  have e: "(RrfFusion [] [] 10, Chunks [])
     \<in> set (snd (run_claim_check demo ''u2'' ''cataract'' ''surgery''))"
    by code_simp
  have f: "\<exists>e\<in>set (snd (run_claim_check demo_llm_down ''u1'' ''cataract'' ''surgery'')).
      is_chat_json (fst e) \<and> snd e = Failed ''service unavailable''"
    by code_simp
  then obtain prompt where
    f': "(ChatJson prompt, Failed ''service unavailable'')
       \<in> set (snd (run_claim_check demo_llm_down ''u1'' ''cataract'' ''surgery''))"
    by (metis is_chat_json.elims(2) prod.collapse)
  note t1 = run_claim_check_outcomes
    [where sv = demo and policy_id = "''u1''" and condition = "''cataract''"
       and treatment_type = "''surgery''"
       and d = "projr (fst (run_claim_check demo ''u1'' ''cataract'' ''surgery''))"]
  note t2 = run_claim_check_outcomes
    [where sv = demo and policy_id = "''zz''" and condition = "''cataract''"
       and treatment_type = "''surgery''" and p = "''zz''" and u = None]
  note t3 = run_claim_check_outcomes
    [where sv = demo and policy_id = "''c2''" and condition = "''cataract''"
       and treatment_type = "''surgery''" and i = "VStr ''Star Health''" and mt = None]
  note t4 = run_claim_check_outcomes
    [where sv = demo and policy_id = "''u1''" and condition = "''vertigo''"
       and treatment_type = "''therapy''" and m = "''model offline''"]
  note t5 = run_claim_check_outcomes
    [where sv = demo and policy_id = "''u2''" and condition = "''cataract''"
       and treatment_type = "''surgery''" and a = "[]" and b = "[]" and k = 10]
  note t6 = run_claim_check_outcomes
    [where sv = demo_llm_down and policy_id = "''u1''" and condition = "''cataract''"
       and treatment_type = "''surgery''" and cl = "ChatJson prompt"
       and ?m2.0 = "''service unavailable''"]
  from t1 a a' have r1:
    "\<not> error_result (projr (fst (run_claim_check demo ''u1'' ''cataract'' ''surgery'')))"
    by blast
  from t2 b have r2: "fst (run_claim_check demo ''zz'' ''cataract'' ''surgery'')
     = Inr [(''error'', VStr ''Policy not found.'')]"
    by simp
  from t3 c have r3: "\<exists>name. fst (run_claim_check demo ''c2'' ''cataract'' ''surgery'')
     = Inr [(''error'', VStr (no_document_message demo name (VStr ''Star Health'')))]"
    by simp
  from t4 d have r4: "fst (run_claim_check demo ''u1'' ''vertigo'' ''therapy'')
     = Inr [(''error'', VStr (''Embedding failed: '' @ ''model offline''))]"
    by blast
  from t5 e have r5: "fst (run_claim_check demo ''u2'' ''cataract'' ''surgery'')
     = Inr [(''error'', VStr (no_evidence_message ''cataract''))]"
    by blast
  have r5e: "error_result [(''error'', VStr (no_evidence_message ''cataract''))]"
    by (simp add: no_evidence_message_nonempty)
  from t6 f' have r6: "fst (run_claim_check demo_llm_down ''u1'' ''cataract'' ''surgery'')
     = Inl (Raised ''service unavailable'')"
    by simp
  from a a' b c d e f r1 r2 r3 r4 r5 r5e r6 show ?thesis by blast
qed

text \<open>
  C9. Fusion is stable and deduplicating. Whenever a run calls the fusion step, its
  semantic candidates are the replies of the three semantic searches, appended in the
  order query, coverage, sections, with the chunks that lack an identifier left out and
  every chunk dropped whose identifier occurred earlier: what remains keeps the input
  order, each chunk being the first of its identifier, and no identifier occurs twice.
  Deduplicating the candidates again returns them unchanged. The fused set, as the
  specification defines rank fusion, has no identifier twice and at most ten chunks.
  (The model is functional, so that the same inputs give the same ordered output holds
  by construction.)
\<close>

theorem fusion_candidates_first_seen_and_distinct:
  assumes "(RrfFusion combined kw k, r)
      \<in> set (snd (run_claim_check sv policy_id condition treatment_type))"
  shows "\<exists>qe ce sid sem cov sec.
      (SemanticSearch qe sid 6, Chunks sem)
         \<in> set (snd (run_claim_check sv policy_id condition treatment_type)) \<and>
      (SemanticSearch ce sid 4, Chunks cov)
         \<in> set (snd (run_claim_check sv policy_id condition treatment_type)) \<and>
      (SectionSearch qe sid CLAIM_SECTIONS 4, Chunks sec)
         \<in> set (snd (run_claim_check sv policy_id condition treatment_type)) \<and>
      combined = spec_dedupe (filter has_id (sem @ cov @ sec)) \<and>
      subseq combined (sem @ cov @ sec) \<and>
      distinct (map chunk_key combined) \<and>
      chunk_key ` set combined = chunk_key ` {x \<in> set (sem @ cov @ sec). has_id x} \<and>
      (\<forall>x\<in>set combined.
         find (\<lambda>y. has_id y \<and> chunk_key y = chunk_key x) (sem @ cov @ sec) = Some x) \<and>
      dedupe combined = Inr combined \<and>
      k = 10 \<and>
      distinct (map chunk_key (spec_rrf_fusion combined kw k)) \<and>
      length (spec_rrf_fusion combined kw k) \<le> 10 \<and>
      (rrf_fusion sv combined kw k = Inr (spec_rrf_fusion combined kw k) \<longrightarrow>
         r = Chunks (spec_rrf_fusion combined kw k))"
proof -
  from run_fusion_event [OF assms] obtain policy name sid qe sem cov sec where
    res: "fst (resolve_policy sv policy_id) = Inr (policy, name, sid)" and
    facts: "embed_text sv (condition @ '' '' @ treatment_type) = Inr qe"
      "semantic_search sv qe sid 6 = Inr sem"
      "semantic_search sv (coverage_vector sv qe) sid 4 = Inr cov"
      "section_search sv qe sid CLAIM_SECTIONS 4 = Inr sec" and
    dd: "dedupe (sem @ cov @ sec) = Inr combined" and k: "k = 10" and
    r: "r = reply_of Chunks (rrf_fusion sv combined kw 10)"
    by blast
  have in_run: "e \<in> set (snd (run_claim_check sv policy_id condition treatment_type))"
    if "e \<in> set (snd (retrieve_evidence sv sid condition treatment_type))" for e
    using that res unfolding run_mem by blast
  note ev = retrieve_search_events(1-3) [OF facts, THEN in_run]
  from dd have comb: "combined = spec_dedupe (filter has_id (sem @ cov @ sec))"
    by (simp add: dedupe_Inr)
  have "subseq combined (sem @ cov @ sec)"
    unfolding comb by (rule spec_dedupe_subseq)
  moreover have "distinct (map chunk_key combined)"
    unfolding comb by (rule spec_dedupe_distinct)
  moreover have "chunk_key ` set combined = chunk_key ` {x \<in> set (sem @ cov @ sec). has_id x}"
    unfolding comb by (rule spec_dedupe_keys)
  moreover have "\<forall>x\<in>set combined.
         find (\<lambda>y. has_id y \<and> chunk_key y = chunk_key x) (sem @ cov @ sec) = Some x"
    unfolding comb using spec_dedupe_first by blast
  moreover have "dedupe combined = Inr combined"
    by (rule dedupe_idem [OF dd])
  moreover have "distinct (map chunk_key (spec_rrf_fusion combined kw k))"
    by (rule spec_rrf_fusion_distinct)
  moreover have "length (spec_rrf_fusion combined kw k) \<le> 10"
    unfolding k by (rule spec_rrf_fusion_length)
  moreover have "rrf_fusion sv combined kw k = Inr (spec_rrf_fusion combined kw k) \<longrightarrow>
         r = Chunks (spec_rrf_fusion combined kw k)"
    using r k by simp
  ultimately show ?thesis
    using ev comb k by blast
qed

theorem fusion_candidates_first_seen_and_distinct_witness:
  "(RrfFusion (spec_dedupe (filter has_id (take 6 demo_chunks @ take 4 demo_chunks
                  @ take 1 demo_chunks)))
      (take 3 (rev demo_chunks)) 10,
    Chunks (spec_rrf_fusion [demo_chunks ! 0, demo_chunks ! 2] (take 3 (rev demo_chunks)) 10))
     \<in> set (snd (run_claim_check demo ''u1'' ''cataract'' ''surgery'')) \<and>
   spec_dedupe (filter has_id (take 6 demo_chunks @ take 4 demo_chunks @ take 1 demo_chunks))
     = [demo_chunks ! 0, demo_chunks ! 2] \<and>
   distinct (map chunk_key [demo_chunks ! 0, demo_chunks ! 2]) \<and>
   dedupe [demo_chunks ! 0, demo_chunks ! 2] = Inr [demo_chunks ! 0, demo_chunks ! 2] \<and>
   distinct (map chunk_key
     (spec_rrf_fusion [demo_chunks ! 0, demo_chunks ! 2] (take 3 (rev demo_chunks)) 10)) \<and>
   spec_rrf_fusion [demo_chunks ! 0, demo_chunks ! 2] (take 3 (rev demo_chunks)) 10
     = [demo_chunks ! 0, demo_chunks ! 2, demo_chunks ! 1]"
proof -
  have c: "spec_dedupe (filter has_id (take 6 demo_chunks @ take 4 demo_chunks
              @ take 1 demo_chunks)) = [demo_chunks ! 0, demo_chunks ! 2]"
    by code_simp
  have f: "spec_rrf_fusion [demo_chunks ! 0, demo_chunks ! 2] (take 3 (rev demo_chunks)) 10
     = [demo_chunks ! 0, demo_chunks ! 2, demo_chunks ! 1]"
    by code_simp
  have h: "(RrfFusion [demo_chunks ! 0, demo_chunks ! 2] (take 3 (rev demo_chunks)) 10,
    Chunks (spec_rrf_fusion [demo_chunks ! 0, demo_chunks ! 2] (take 3 (rev demo_chunks)) 10))
     \<in> set (snd (run_claim_check demo ''u1'' ''cataract'' ''surgery''))"
    by code_simp
  from fusion_candidates_first_seen_and_distinct [OF h]
  have "distinct (map chunk_key [demo_chunks ! 0, demo_chunks ! 2])"
    "dedupe [demo_chunks ! 0, demo_chunks ! 2] = Inr [demo_chunks ! 0, demo_chunks ! 2]"
    "distinct (map chunk_key
      (spec_rrf_fusion [demo_chunks ! 0, demo_chunks ! 2] (take 3 (rev demo_chunks)) 10))"
    by blast+
  with c f h show ?thesis by simp
qed

text \<open>
  C10, as stated: \<open>_dedupe\<close> drops every chunk without identifier, so a retrieved
  chunk lacking an identifier can never reach fusion or the assembled context. Only the
  semantic candidates pass through \<open>_dedupe\<close>; the reply of the keyword search is handed
  to fusion as it is. Here the keyword search returns a chunk without identifier: it is
  in the keyword argument of the fusion call and, with rank fusion as specified, its text
  is in the prompt sent to the analysis service.
\<close>

theorem keyword_chunk_without_id_reaches_fusion:
  "(RrfFusion [demo_chunks ! 0, demo_chunks ! 2] (take 3 (rev demo_chunks)) 10,
    Chunks [demo_chunks ! 0, demo_chunks ! 2, demo_chunks ! 1])
     \<in> set (snd (run_claim_check demo ''u1'' ''cataract'' ''surgery'')) \<and>
   (KeywordSearch ''cataract'' (VStr ''u1'') 10, Chunks (take 3 (rev demo_chunks)))
     \<in> set (snd (run_claim_check demo ''u1'' ''cataract'' ''surgery'')) \<and>
   demo_chunks ! 1 \<in> set (take 3 (rev demo_chunks)) \<and>
   chunk_id (demo_chunks ! 1) = VNone \<and> \<not> has_id (demo_chunks ! 1) \<and>
   (\<exists>e\<in>set (snd (run_claim_check demo ''u1'' ''cataract'' ''surgery'')).
      case fst e of ChatJson prompt \<Rightarrow> sublist ''Loose page without identifier.'' prompt
      | _ \<Rightarrow> False)"
  by code_simp

text \<open>
  C10, amended. Whenever \<open>_dedupe\<close> returns (it raises \<open>TypeError\<close> on an identifier
  that cannot be hashed), its output is the input without the chunks whose identifier is
  missing, \<open>None\<close> or otherwise false, and without later duplicates: every chunk of
  the output has an identifier, and no chunk without one is in it. In a run, the
  semantic candidates handed to fusion therefore all have identifiers, while the keyword
  candidates handed to fusion are the reply of the keyword search, unfiltered.
\<close>

theorem dedupe_keeps_only_chunks_with_id:
  "(dedupe chunks = Inr out \<longrightarrow>
      out = spec_dedupe (filter has_id chunks) \<and>
      (\<forall>x\<in>set out. has_id x) \<and>
      (\<forall>x\<in>set chunks. \<not> has_id x \<longrightarrow> x \<notin> set out) \<and>
      distinct (map chunk_key out))
   \<and>
   ((RrfFusion sem kw k, r) \<in> set (snd (run_claim_check sv policy_id condition treatment_type))
      \<longrightarrow>
      (\<forall>x\<in>set sem. has_id x) \<and>
      (\<exists>sid. (KeywordSearch condition sid 10, Chunks kw)
                \<in> set (snd (run_claim_check sv policy_id condition treatment_type))))"
proof (intro conjI impI)
  assume d: "dedupe chunks = Inr out"
  then show out: "out = spec_dedupe (filter has_id chunks)"
    by (simp add: dedupe_Inr)
  show ids: "\<forall>x\<in>set out. has_id x"
    unfolding out using spec_dedupe_has_id by blast
  then show "\<forall>x\<in>set chunks. \<not> has_id x \<longrightarrow> x \<notin> set out"
    by blast
  show "distinct (map chunk_key out)"
    unfolding out by (rule spec_dedupe_distinct)
next
  assume ev: "(RrfFusion sem kw k, r)
      \<in> set (snd (run_claim_check sv policy_id condition treatment_type))"
  from run_fusion_event [OF ev] obtain policy name sid qe s1 s2 s3 where
    res: "fst (resolve_policy sv policy_id) = Inr (policy, name, sid)" and
    facts: "embed_text sv (condition @ '' '' @ treatment_type) = Inr qe"
      "semantic_search sv qe sid 6 = Inr s1"
      "semantic_search sv (coverage_vector sv qe) sid 4 = Inr s2"
      "section_search sv qe sid CLAIM_SECTIONS 4 = Inr s3" and
    kw: "keyword_search sv condition sid 10 = Inr kw" and
    dd: "dedupe (s1 @ s2 @ s3) = Inr sem"
    by blast
  from dd have "sem = spec_dedupe (filter has_id (s1 @ s2 @ s3))"
    unfolding dedupe_Inr by blast
  then show "\<forall>x\<in>set sem. has_id x"
    using spec_dedupe_has_id by blast
  from retrieve_search_events(4) [OF facts] kw res
  have "(KeywordSearch condition sid 10, Chunks kw)
      \<in> set (snd (run_claim_check sv policy_id condition treatment_type))"
    unfolding run_mem by auto
  then show "\<exists>sid. (KeywordSearch condition sid 10, Chunks kw)
      \<in> set (snd (run_claim_check sv policy_id condition treatment_type))"
    by blast
qed

theorem dedupe_keeps_only_chunks_with_id_witness:
  "dedupe demo_chunks = Inr [demo_chunks ! 0, demo_chunks ! 2] \<and>
   spec_dedupe (filter has_id demo_chunks) = [demo_chunks ! 0, demo_chunks ! 2] \<and>
   list_all has_id [demo_chunks ! 0, demo_chunks ! 2] \<and>
   \<not> has_id (demo_chunks ! 1) \<and>
   (RrfFusion [demo_chunks ! 0, demo_chunks ! 2] (take 3 (rev demo_chunks)) 10,
    Chunks [demo_chunks ! 0, demo_chunks ! 2, demo_chunks ! 1])
     \<in> set (snd (run_claim_check demo ''u1'' ''cataract'' ''surgery'')) \<and>
   (\<exists>sid. (KeywordSearch ''cataract'' sid 10, Chunks (take 3 (rev demo_chunks)))
     \<in> set (snd (run_claim_check demo ''u1'' ''cataract'' ''surgery'')))"
proof -
  have d: "dedupe demo_chunks = Inr [demo_chunks ! 0, demo_chunks ! 2]"
    and n: "\<not> has_id (demo_chunks ! 1)"
    by code_simp+
  have h: "(RrfFusion [demo_chunks ! 0, demo_chunks ! 2] (take 3 (rev demo_chunks)) 10,
    Chunks [demo_chunks ! 0, demo_chunks ! 2, demo_chunks ! 1])
     \<in> set (snd (run_claim_check demo ''u1'' ''cataract'' ''surgery''))"
    by code_simp
  note t = dedupe_keeps_only_chunks_with_id
    [where chunks = demo_chunks and out = "[demo_chunks ! 0, demo_chunks ! 2]"
       and sem = "[demo_chunks ! 0, demo_chunks ! 2]" and kw = "take 3 (rev demo_chunks)"
       and k = 10 and r = "Chunks [demo_chunks ! 0, demo_chunks ! 2, demo_chunks ! 1]"
       and sv = demo and policy_id = "''u1''" and condition = "''cataract''"
       and treatment_type = "''surgery''"]
  from t d have e1: "[demo_chunks ! 0, demo_chunks ! 2] = spec_dedupe (filter has_id demo_chunks)"
    and e2: "\<forall>x\<in>set [demo_chunks ! 0, demo_chunks ! 2]. has_id x"
    by blast+
  have "spec_dedupe (filter has_id demo_chunks) = [demo_chunks ! 0, demo_chunks ! 2]"
    using e1 by (rule sym)
  moreover have "list_all has_id [demo_chunks ! 0, demo_chunks ! 2]"
    using e2 unfolding list_all_iff .
  moreover from t h have "\<exists>sid. (KeywordSearch ''cataract'' sid 10, Chunks (take 3 (rev demo_chunks)))
     \<in> set (snd (run_claim_check demo ''u1'' ''cataract'' ''surgery''))"
    by blast
  ultimately show ?thesis using d n h by blast
qed

end
